theory Spec2Isabelle
  imports Main
begin

section \<open>Session registry and request router\<close>

text \<open>
  The gateway of \<^verbatim>\<open>src/index.ts\<close> keeps one process-wide object
  \<^verbatim>\<open>const transports: { [sessionId: string]: StreamableHTTPServerTransport } = {}\<close>.
  A transport object is represented by its identity (the order of construction). The
  own properties of \<^verbatim>\<open>transports\<close> are a map from session ids to transports.
\<close>

datatype transport = StreamableHTTPServerTransport nat

type_synonym registry = "string \<rightharpoonup> transport"

text \<open>
  \<^verbatim>\<open>transports\<close> is created by the object literal \<^verbatim>\<open>{}\<close>, so a property read
  \<^verbatim>\<open>transports[sessionId]\<close> that finds no own property continues in
  \<^verbatim>\<open>Object.prototype\<close>. The value read is one of: \<^verbatim>\<open>undefined\<close>, a transport
  stored under that id, or a member inherited from the prototype (a function, or the
  prototype object itself for \<^verbatim>\<open>__proto__\<close>), which is truthy and has no
  \<^verbatim>\<open>handleRequest\<close> method.
\<close>

datatype property = Undefined | Own transport | Inherited

definition objectPrototype :: "string list" where
  "objectPrototype =
     [''constructor'', ''__defineGetter__'', ''__defineSetter__'', ''hasOwnProperty'',
      ''__lookupGetter__'', ''__lookupSetter__'', ''isPrototypeOf'',
      ''propertyIsEnumerable'', ''toString'', ''valueOf'', ''__proto__'',
      ''toLocaleString'']"

definition get_property :: "registry \<Rightarrow> string \<Rightarrow> property" where
  "get_property transports sessionId =
     (case transports sessionId of
        Some transport \<Rightarrow> Own transport
      | None \<Rightarrow> if sessionId \<in> set objectPrototype then Inherited else Undefined)"

fun truthy_property :: "property \<Rightarrow> bool" where
  "truthy_property Undefined = False"
| "truthy_property (Own transport) = True"
| "truthy_property Inherited = True"

text \<open>
  The header \<^verbatim>\<open>req.headers['mcp-session-id'] as string | undefined\<close>: \<open>None\<close> is
  \<^verbatim>\<open>undefined\<close>. A string is truthy unless it is empty.
\<close>

fun truthy_header :: "string option \<Rightarrow> bool" where
  "truthy_header None = False"
| "truthy_header (Some sessionId) = (sessionId \<noteq> [])"

text \<open>
  The lookup \<^verbatim>\<open>sessionId && transports[sessionId]\<close>; a falsy left operand is
  returned as \<open>Undefined\<close> (only the truthiness of the result is used).
\<close>

definition lookup :: "registry \<Rightarrow> string option \<Rightarrow> property" where
  "lookup transports sessionId =
     (case sessionId of
        None \<Rightarrow> Undefined
      | Some s \<Rightarrow> if s = [] then Undefined else get_property transports s)"

text \<open>
  The two callbacks wired to a new transport in the POST handler:
  \<^verbatim>\<open>onsessioninitialized: (sessionId) => { transports[sessionId] = transport; }\<close> and
  \<^verbatim>\<open>transport.onclose = () => { if (transport.sessionId) { delete transports[transport.sessionId]; } }\<close>.
  The second reads the field \<^verbatim>\<open>transport.sessionId\<close> (a string or undefined), passed
  here as an argument.
\<close>

definition onsessioninitialized :: "transport \<Rightarrow> string \<Rightarrow> registry \<Rightarrow> registry" where
  "onsessioninitialized transport sessionId transports = transports(sessionId \<mapsto> transport)"

definition onclose :: "string option \<Rightarrow> registry \<Rightarrow> registry" where
  "onclose sessionId transports =
     (case sessionId of
        None \<Rightarrow> transports
      | Some s \<Rightarrow> if s \<noteq> [] then transports(s := None) else transports)"

text \<open>
  Session ids are generated by \<^verbatim>\<open>sessionIdGenerator: () => randomUUID()\<close>: 36
  characters, lower-case hexadecimal digits in five groups separated by hyphens at
  positions 8, 13, 18 and 23.
\<close>

fun uuid_chars :: "nat \<Rightarrow> string \<Rightarrow> bool" where
  "uuid_chars i [] = (i = 36)"
| "uuid_chars i (c # cs) =
     ((if i = 8 \<or> i = 13 \<or> i = 18 \<or> i = 23 then c = CHR ''-''
       else c \<in> set ''0123456789abcdef'') \<and> uuid_chars (Suc i) cs)"

definition isUUID :: "string \<Rightarrow> bool" where
  "isUUID s = uuid_chars 0 s"

text \<open>
  The callbacks a transport fires over time, and their effect on the registry. Nothing
  else in the source assigns to or deletes from \<^verbatim>\<open>transports\<close>.
\<close>

datatype callback = SessionInitialized transport string | Closed "string option"

fun fire :: "callback \<Rightarrow> registry \<Rightarrow> registry" where
  "fire (SessionInitialized transport sessionId) transports =
     onsessioninitialized transport sessionId transports"
| "fire (Closed sessionId) transports = onclose sessionId transports"

fun fire_all :: "callback list \<Rightarrow> registry \<Rightarrow> registry" where
  "fire_all [] transports = transports"
| "fire_all (c # cs) transports = fire_all cs (fire c transports)"

fun registers :: "string \<Rightarrow> callback \<Rightarrow> bool" where
  "registers s (SessionInitialized transport sessionId) = (sessionId = s)"
| "registers s (Closed sessionId) = False"

subsection \<open>Requests, responses and the three handlers\<close>

record 'b request =
  mcp_session_id :: "string option"
  body :: 'b

text \<open>
  What a handler does with the response object: \<^verbatim>\<open>res.status(n).json(obj)\<close> with the
  JSON-RPC error object of the POST handler, or \<^verbatim>\<open>res.status(n).send(text)\<close>.
  The field \<open>id'\<close> is the member \<^verbatim>\<open>id\<close>; \<open>None\<close> is \<^verbatim>\<open>null\<close>.
\<close>

record jsonrpc_error =
  jsonrpc :: string
  code :: int
  message :: string
  id' :: "string option"

datatype sent = Json jsonrpc_error | Send string

text \<open>
  The outcome of a handler: the request was handed to a transport
  (\<^verbatim>\<open>await transport.handleRequest(...)\<close>), a response was written by the handler
  itself, or the handler threw (its promise is rejected).
\<close>

datatype outcome = HandleRequest transport | Status nat sent | Throws string

text \<open>
  \<^verbatim>\<open>transport.handleRequest(req, res, ...)\<close> on the value held by the variable
  \<^verbatim>\<open>transport\<close>: a call of a missing method is a TypeError.
\<close>

fun handleRequest :: "property \<Rightarrow> outcome" where
  "handleRequest (Own transport) = HandleRequest transport"
| "handleRequest Inherited = Throws ''TypeError: transport.handleRequest is not a function''"
| "handleRequest Undefined =
     Throws ''TypeError: Cannot read properties of undefined (reading 'handleRequest')''"

text \<open>
  The state of the gateway: the registry and the number of transports constructed so
  far by \<^verbatim>\<open>new StreamableHTTPServerTransport(...)\<close>.
\<close>

record gateway =
  transports :: registry
  constructed :: nat

definition bad_request :: jsonrpc_error where
  "bad_request =
     \<lparr>jsonrpc = ''2.0'', code = - 32000,
      message = ''Bad Request: No valid session ID provided'', id' = None\<rparr>"

text \<open>
  \<^verbatim>\<open>app.post("/mcp", ...)\<close>. \<^verbatim>\<open>isInitializeRequest\<close> belongs to the protocol
  library and is a parameter. In the second branch a transport is constructed, the two
  callbacks are wired, a server with its tools is connected, and control falls through
  to \<^verbatim>\<open>transport.handleRequest\<close>.
\<close>

definition post_mcp :: "('b \<Rightarrow> bool) \<Rightarrow> 'b request \<Rightarrow> gateway \<Rightarrow> outcome \<times> gateway" where
  "post_mcp isInitializeRequest req g =
     (let sessionId = mcp_session_id req in
      if truthy_property (lookup (transports g) sessionId) then
        (handleRequest (lookup (transports g) sessionId), g)
      else if \<not> truthy_header sessionId \<and> isInitializeRequest (body req) then
        (handleRequest (Own (StreamableHTTPServerTransport (constructed g))),
         g\<lparr>constructed := Suc (constructed g)\<rparr>)
      else (Status 400 (Json bad_request), g))"

text \<open>\<^verbatim>\<open>handleSessionRequest\<close>, registered for GET and DELETE.\<close>

definition handleSessionRequest :: "'b request \<Rightarrow> gateway \<Rightarrow> outcome \<times> gateway" where
  "handleSessionRequest req g =
     (let sessionId = mcp_session_id req in
      if \<not> truthy_header sessionId \<or> \<not> truthy_property (lookup (transports g) sessionId) then
        (Status 400 (Send ''Invalid or missing session ID''), g)
      else (handleRequest (lookup (transports g) sessionId), g))"

section \<open>Cache keys\<close>

text \<open>
  The three template strings used as cache keys: \<^verbatim>\<open>"chains"\<close>,
  \<^verbatim>\<open>`tokens-${chain || "all"}`\<close> and \<^verbatim>\<open>`token-${chain}-${token}`\<close>.
\<close>

fun or_all :: "string option \<Rightarrow> string" where
  "or_all None = ''all''"
| "or_all (Some chain) = (if chain = [] then ''all'' else chain)"

datatype cached_lookup = ChainList | TokensOfChain "string option" | TokenOfChain string string

fun cache_key :: "cached_lookup \<Rightarrow> string" where
  "cache_key ChainList = ''chains''"
| "cache_key (TokensOfChain chain) = ''tokens-'' @ or_all chain"
| "cache_key (TokenOfChain chain token) = ''token-'' @ chain @ ''-'' @ token"

fun same_operation :: "cached_lookup \<Rightarrow> cached_lookup \<Rightarrow> bool" where
  "same_operation ChainList ChainList = True"
| "same_operation (TokensOfChain c) (TokensOfChain c') = True"
| "same_operation (TokenOfChain c t) (TokenOfChain c' t') = True"
| "same_operation a b = False"

section \<open>Values and their JSON text\<close>

text \<open>
  The values the handlers pass around: \<^verbatim>\<open>undefined\<close>, \<^verbatim>\<open>null\<close>, booleans, numbers,
  strings (characters up to code 255), bigints, arrays and objects (the members in
  order). A number is held as the text \<^verbatim>\<open>Number.prototype.toString\<close> gives for it;
  the handlers only print numbers and pass them on.
\<close>

datatype jsval =
    JUndefined | JNull | JBool bool | JNumber string | JString string | JBigInt int
  | JArray "jsval list" | JObject "(string \<times> jsval) list"

text \<open>What is thrown: an Error object with its \<^verbatim>\<open>message\<close>.\<close>

datatype error = Error string | TypeError string | SyntaxError string

fun error_message :: "error \<Rightarrow> string" where
  "error_message (Error m) = m"
| "error_message (TypeError m) = m"
| "error_message (SyntaxError m) = m"

subsection \<open>Decimal text of a bigint\<close>

definition digit :: "nat \<Rightarrow> char" where
  "digit d = ''0123456789'' ! d"

function decimal :: "nat \<Rightarrow> string" where
  "decimal n = (if n < 10 then [digit n] else decimal (n div 10) @ [digit (n mod 10)])"
  by pat_completeness auto
termination
  by (relation "measure id") auto

text \<open>\<^verbatim>\<open>v.toString()\<close> of a bigint \<open>v\<close>.\<close>

definition BigInt_toString :: "int \<Rightarrow> string" where
  "BigInt_toString n = (if n < 0 then CHR ''-'' # decimal (nat (- n)) else decimal (nat n))"

text \<open>
  Reading a decimal text back, to state that a rendering loses nothing: the digits are
  folded most significant first, a leading hyphen negates.
\<close>

definition digit_value :: "char \<Rightarrow> nat" where
  "digit_value c = of_char c - 48"



subsection \<open>JSON.stringify with the replacer of safeStringify\<close>

text \<open>
  \<^verbatim>\<open>QuoteJSONString\<close>: the quotation mark (code 0x22) and the backslash (0x5C) are
  escaped with a backslash, control characters are written as a backslash and one of
  the letters b, t, n, f, r, or as a four-digit hexadecimal escape.
\<close>

definition hex :: "nat \<Rightarrow> char" where
  "hex d = ''0123456789abcdef'' ! d"

definition escape :: "char \<Rightarrow> string" where
  "escape c =
     (if c = CHR 0x08 then [CHR 0x5C, CHR ''b'']
      else if c = CHR 0x09 then [CHR 0x5C, CHR ''t'']
      else if c = CHR 0x0A then [CHR 0x5C, CHR ''n'']
      else if c = CHR 0x0C then [CHR 0x5C, CHR ''f'']
      else if c = CHR 0x0D then [CHR 0x5C, CHR ''r'']
      else if c = CHR 0x22 then [CHR 0x5C, CHR 0x22]
      else if c = CHR 0x5C then [CHR 0x5C, CHR 0x5C]
      else if (of_char c :: nat) < 32
        then [CHR 0x5C, CHR ''u'', CHR ''0'', CHR ''0'', hex (of_char c div 16), hex (of_char c mod 16)]
      else [c])"

definition QuoteJSONString :: "string \<Rightarrow> string" where
  "QuoteJSONString s = CHR 0x22 # concat (map escape s) @ [CHR 0x22]"

fun join :: "string list \<Rightarrow> string" where
  "join [] = []"
| "join [s] = s"
| "join (s # t # ss) = s @ CHR '','' # join (t # ss)"

text \<open>The results of a list of steps, or the first error thrown.\<close>

fun sequence :: "(error + 'a) list \<Rightarrow> error + 'a list" where
  "sequence [] = Inr []"
| "sequence (x # xs) =
     (case x of
        Inl e \<Rightarrow> Inl e
      | Inr a \<Rightarrow> (case sequence xs of Inl e \<Rightarrow> Inl e | Inr as \<Rightarrow> Inr (a # as)))"

text \<open>The replacer \<^verbatim>\<open>(_, v) => typeof v === "bigint" ? v.toString() : v\<close>.\<close>

definition replacer :: "jsval \<Rightarrow> jsval" where
  "replacer v = (case v of JBigInt n \<Rightarrow> JString (BigInt_toString n) | _ \<Rightarrow> v)"

text \<open>
  An array element that serialises to \<^verbatim>\<open>undefined\<close> is written \<^verbatim>\<open>null\<close>; an
  object member that does is left out.
\<close>

fun element :: "string option \<Rightarrow> string" where
  "element None = ''null''"
| "element (Some s) = s"

fun member :: "string \<times> string option \<Rightarrow> string list" where
  "member (k, None) = []"
| "member (k, Some s) = [QuoteJSONString k @ CHR '':'' # s]"

lemma size_replacer [termination_simp]: "size (replacer v) = size v"
  by (cases v) (simp_all add: replacer_def)

text \<open>
  \<^verbatim>\<open>SerializeJSONProperty\<close> of \<^verbatim>\<open>JSON.stringify\<close>, applied to the value the
  replacer returned for a property: the replacer is called on every element and member
  before it is serialised. The result is a text, \<^verbatim>\<open>undefined\<close> (\<open>None\<close>), or the
  TypeError thrown for a bigint.
\<close>

fun SerializeJSONProperty :: "jsval \<Rightarrow> error + string option" where
  "SerializeJSONProperty JUndefined = Inr None"
| "SerializeJSONProperty JNull = Inr (Some ''null'')"
| "SerializeJSONProperty (JBool b) = Inr (Some (if b then ''true'' else ''false''))"
| "SerializeJSONProperty (JNumber n) =
     Inr (Some (if n = ''NaN'' \<or> n = ''Infinity'' \<or> n = ''-Infinity'' then ''null'' else n))"
| "SerializeJSONProperty (JString s) = Inr (Some (QuoteJSONString s))"
| "SerializeJSONProperty (JBigInt n) = Inl (TypeError ''Do not know how to serialize a BigInt'')"
| "SerializeJSONProperty (JArray xs) =
     (case sequence (map (\<lambda>x. SerializeJSONProperty (replacer x)) xs) of
        Inl e \<Rightarrow> Inl e
      | Inr items \<Rightarrow> Inr (Some (CHR ''['' # join (map element items) @ '']'')))"
| "SerializeJSONProperty (JObject kvs) =
     (case sequence (map (\<lambda>(k, x). case SerializeJSONProperty (replacer x) of
                                      Inl e \<Rightarrow> Inl e | Inr r \<Rightarrow> Inr (k, r)) kvs) of
        Inl e \<Rightarrow> Inl e
      | Inr members \<Rightarrow> Inr (Some (CHR ''{'' # join (concat (map member members)) @ ''}'')))"

text \<open>\<^verbatim>\<open>safeStringify(obj)\<close> of \<^verbatim>\<open>helper.ts\<close>.\<close>

definition safeStringify :: "jsval \<Rightarrow> error + string option" where
  "safeStringify obj = SerializeJSONProperty (replacer obj)"

text \<open>The text a serialisation returned, if it returned one.\<close>

fun rendered :: "error + string option \<Rightarrow> string option" where
  "rendered (Inl e) = None"
| "rendered (Inr r) = r"

subsection \<open>Where the bigints of a value are in its text\<close>




section \<open>Cache layer\<close>

text \<open>
  Truthiness of a value, as tested by \<^verbatim>\<open>if (!chains)\<close>: of the numbers, zero (also
  written \<^verbatim>\<open>0\<close> when negative) and NaN are falsy.
\<close>

type_synonym number = string

fun truthy :: "jsval \<Rightarrow> bool" where
  "truthy JUndefined = False"
| "truthy JNull = False"
| "truthy (JBool b) = b"
| "truthy (JNumber n) = (n \<noteq> ''0'' \<and> n \<noteq> ''NaN'')"
| "truthy (JString s) = (s \<noteq> [])"
| "truthy (JBigInt n) = (n \<noteq> 0)"
| "truthy (JArray xs) = True"
| "truthy (JObject kvs) = True"

text \<open>
  Modelled from the spec: the store \<^verbatim>\<open>_cache = new NodeCache()\<close> comes from the package
  node-cache, whose code is not part of the sources. Following the Cache Entry of the
  spec, an entry holds a value and an absolute expiry; \<open>set\<close> stores the value with
  expiry \<open>now + ttl\<close>, and \<open>get\<close> checks the expiry lazily: an access past expiry is a
  miss and discards the entry. Time and ttl are in seconds.
\<close>

record entry =
  val :: jsval
  expiresAt :: nat

type_synonym nodecache = "string \<rightharpoonup> entry"

definition cache_get :: "nat \<Rightarrow> string \<Rightarrow> nodecache \<Rightarrow> jsval option \<times> nodecache" where
  "cache_get now key data =
     (case data key of
        None \<Rightarrow> (None, data)
      | Some e \<Rightarrow> if expiresAt e < now then (None, data(key := None)) else (Some (val e), data))"

definition cache_set :: "nat \<Rightarrow> string \<Rightarrow> jsval \<Rightarrow> nat \<Rightarrow> nodecache \<Rightarrow> nodecache" where
  "cache_set now key v ttl data = data(key \<mapsto> \<lparr>val = v, expiresAt = now + ttl\<rparr>)"

definition cacheTTL :: nat where
  "cacheTTL = 60 * 60 * 24"

definition lifiProtocol :: string where
  "lifiProtocol = ''LI.FI''"

section \<open>Tool handlers\<close>

subsection \<open>The remote service\<close>

text \<open>
  The arguments of the swap and bridge tools, in the order \<^verbatim>\<open>fromChain, toChain,
  fromToken, toToken, fromAmount, fromAddress, slippage\<close>.
\<close>

datatype quote_request = QuoteRequest number number string string string string "number option"

text \<open>
  A \<^verbatim>\<open>TokenAmount\<close> of the SDK: the field \<^verbatim>\<open>amount?: bigint\<close> and the other
  fields.
\<close>

record tokenAmount =
  amount :: "int option"
  others :: "(string \<times> jsval) list"

text \<open>
  What a handler reads of a \<^verbatim>\<open>fetch\<close> response: \<^verbatim>\<open>ok\<close>, \<^verbatim>\<open>status\<close>,
  \<^verbatim>\<open>await res.text()\<close> and \<^verbatim>\<open>await res.json()\<close>. The request headers are the same
  two constants in every call and are left out.
\<close>

datatype response =
  Response (ok: bool) (status: nat) (body_text: "error + string") (body_json: "error + jsval")

text \<open>The remote calls a handler can issue, with their arguments.\<close>

datatype call =
    GetQuote quote_request bool
  | GetChains
  | GetTokens "string list option" bool
  | GetToken string string
  | GetTools "string list option"
  | GetConnections "number option" "string option" "number option" "string option"
  | GetTokenBalance string jsval
  | GetTokenBalances string "jsval list option"
  | GetTokenAllowance jsval string string
  | GetTokenAllowanceMulticall string "(jsval \<times> string) list"
  | GetRoutes number number string string string "string option"
  | GetStatus string "string option" "number option" "number option"
  | Fetch string

text \<open>
  The external collaborators are parameters: the functions of \<^verbatim>\<open>@lifi/sdk\<close>,
  \<^verbatim>\<open>fetch\<close>, \<^verbatim>\<open>JSON.parse\<close> and the serialisation of \<^verbatim>\<open>URLSearchParams\<close>. A
  remote function receives the number of remote calls issued before it, so two calls
  with equal arguments may be answered differently, and it returns its value or the
  Error it throws (rejects with). Result types follow the SDK's declarations:
  \<^verbatim>\<open>getChains\<close> an array, \<^verbatim>\<open>getToken\<close> a Token object,
  \<^verbatim>\<open>getTokens\<close> the member \<^verbatim>\<open>tokens: { [chainId: number]: Token[] }\<close> of a
  TokensResponse (chain ids with their token arrays), \<^verbatim>\<open>getTokenBalances\<close> an array
  of TokenAmount.
\<close>

record sdk =
  getQuote :: "nat \<Rightarrow> quote_request \<Rightarrow> bool \<Rightarrow> error + jsval"
  getChains :: "nat \<Rightarrow> error + jsval list"
  getTokens :: "nat \<Rightarrow> string list option \<Rightarrow> bool \<Rightarrow> error + (nat \<times> jsval list) list"
  getToken :: "nat \<Rightarrow> string \<Rightarrow> string \<Rightarrow> error + (string \<times> jsval) list"
  getTools :: "nat \<Rightarrow> string list option \<Rightarrow> error + jsval"
  getConnections ::
    "nat \<Rightarrow> number option \<Rightarrow> string option \<Rightarrow> number option \<Rightarrow> string option \<Rightarrow> error + jsval"
  getTokenBalance :: "nat \<Rightarrow> string \<Rightarrow> jsval \<Rightarrow> error + jsval"
  getTokenBalances :: "nat \<Rightarrow> string \<Rightarrow> jsval list option \<Rightarrow> error + tokenAmount list"
  getTokenAllowance :: "nat \<Rightarrow> jsval \<Rightarrow> string \<Rightarrow> string \<Rightarrow> error + jsval"
  getTokenAllowanceMulticall :: "nat \<Rightarrow> string \<Rightarrow> (jsval \<times> string) list \<Rightarrow> error + jsval"
  getRoutes ::
    "nat \<Rightarrow> number \<Rightarrow> number \<Rightarrow> string \<Rightarrow> string \<Rightarrow> string \<Rightarrow> string option \<Rightarrow> error + jsval"
  getStatus ::
    "nat \<Rightarrow> string \<Rightarrow> string option \<Rightarrow> number option \<Rightarrow> number option \<Rightarrow> error + jsval"
  fetch :: "nat \<Rightarrow> string \<Rightarrow> error + response"
  JSON_parse :: "string \<Rightarrow> error + jsval"
  URLSearchParams_toString :: "(string \<times> string) list \<Rightarrow> string"

subsection \<open>Handlers as state transformers\<close>

text \<open>
  The state a handler works on: the cache and the log of remote calls issued so far. A
  step of a handler returns a value or throws, and leaves a new state.
\<close>

record world =
  cache :: nodecache
  calls :: "call list"

type_synonym 'a io = "world \<Rightarrow> (error + 'a) \<times> world"

definition return_io :: "'a \<Rightarrow> 'a io" where
  "return_io a w = (Inr a, w)"

definition throw :: "error \<Rightarrow> 'a io" where
  "throw e w = (Inl e, w)"

definition bind_io :: "'a io \<Rightarrow> ('a \<Rightarrow> 'b io) \<Rightarrow> 'b io" where
  "bind_io m f w = (case m w of (Inl e, w') \<Rightarrow> (Inl e, w') | (Inr a, w') \<Rightarrow> f a w')"

definition try_catch :: "'a io \<Rightarrow> (error \<Rightarrow> 'a io) \<Rightarrow> 'a io" where
  "try_catch block recover w =
     (case block w of (Inl e, w') \<Rightarrow> recover e w' | (Inr a, w') \<Rightarrow> (Inr a, w'))"

definition lift :: "error + 'a \<Rightarrow> 'a io" where
  "lift r w = (r, w)"

definition remote :: "call \<Rightarrow> (nat \<Rightarrow> error + 'a) \<Rightarrow> 'a io" where
  "remote c respond w = (respond (length (calls w)), w\<lparr>calls := calls w @ [c]\<rparr>)"

definition get_io :: "nat \<Rightarrow> string \<Rightarrow> jsval option io" where
  "get_io now key w =
     (Inr (fst (cache_get now key (cache w))), w\<lparr>cache := snd (cache_get now key (cache w))\<rparr>)"

definition set_io :: "nat \<Rightarrow> string \<Rightarrow> jsval \<Rightarrow> nat \<Rightarrow> unit io" where
  "set_io now key v ttl w = (Inr (), w\<lparr>cache := cache_set now key v ttl (cache w)\<rparr>)"

text \<open>
  \<^verbatim>\<open>let x = _cache.get(key); if (!x) { x = ...; }\<close>: the cached value is kept when
  it is truthy, otherwise the block runs.
\<close>

definition unless_cached :: "jsval option \<Rightarrow> jsval io \<Rightarrow> jsval io" where
  "unless_cached cached block =
     (case cached of
        None \<Rightarrow> block
      | Some v \<Rightarrow> if truthy v then return_io v else block)"

text \<open>
  \<^verbatim>\<open>Promise.all(xs.map(async ...))\<close>: every call is started, in order; the result is
  all the values, or the first rejection.
\<close>

fun all_io :: "'a io list \<Rightarrow> 'a list io" where
  "all_io [] = return_io []"
| "all_io (m # ms) =
     (\<lambda>w. case m w of
        (r, w') \<Rightarrow>
          (case all_io ms w' of
             (rs, w'') \<Rightarrow>
               ((case r of
                   Inl e \<Rightarrow> Inl e
                 | Inr a \<Rightarrow> (case rs of Inl e \<Rightarrow> Inl e | Inr as \<Rightarrow> Inr (a # as))), w'')))"

subsection \<open>Tools, their arguments and their results\<close>

datatype tool =
    Swap quote_request
  | Bridge quote_request
  | Chains
  | TokensOneChain "string option"
  | TokensMultipleChains "string list option"
  | Token string string
  | Tools "string list option"
  | QuoteToAmount number number string string string string "number option"
  | Connections "number option" "string option" "number option" "string option"
  | TokenBalance string number string
  | TokenBalances string number
  | TokenAllowance string number string string
  | TokenAllowanceMulticall string "((string \<times> number) \<times> string) list"
  | Routes number number string string string "string option"
  | GetStatusTool string "string option" "number option" "number option"
  | GasPrice number
  | GasPrices

text \<open>
  The objects a handler returns: \<^verbatim>\<open>{ content: [{ type: "text", text }] }\<close> (the text
  is what \<^verbatim>\<open>safeStringify\<close> returned, or the failure message), or
  \<^verbatim>\<open>{ structuredContent: ... }\<close> with the members \<^verbatim>\<open>params, protocol, quote\<close>,
  \<^verbatim>\<open>params, protocol, error\<close>, \<^verbatim>\<open>balance\<close>, \<^verbatim>\<open>balances\<close> or \<^verbatim>\<open>error\<close>.
\<close>

datatype envelope =
    Content "string option"
  | QuoteContent quote_request string jsval
  | QuoteError quote_request string string
  | BalanceContent jsval
  | BalancesContent jsval
  | ErrorContent string

definition text_content :: "jsval \<Rightarrow> envelope io" where
  "text_content v = bind_io (lift (safeStringify v)) (\<lambda>text. return_io (Content text))"

text \<open>\<^verbatim>\<open>chain ? [chain] : undefined\<close> and the property name of
  \<^verbatim>\<open>tokens.tokens[chain as any]\<close>.\<close>

fun chains_of :: "string option \<Rightarrow> string list option" where
  "chains_of None = None"
| "chains_of (Some chain) = (if chain = [] then None else Some [chain])"

fun property_name :: "string option \<Rightarrow> string" where
  "property_name None = ''undefined''"
| "property_name (Some s) = s"

text \<open>
  The own property \<^verbatim>\<open>tokens.tokens[key]\<close>: the property names of an object indexed
  by chain id are the decimal renderings of the ids.
\<close>

definition tokens_of :: "(nat \<times> jsval list) list \<Rightarrow> string \<Rightarrow> jsval list option" where
  "tokens_of tokens key = map_of (map (\<lambda>(chainId, ts). (decimal chainId, ts)) tokens) key"

text \<open>
  \<^verbatim>\<open>tokens.tokens[chain].slice(0, 25)\<close>, given the property name and the own
  property read under it. Where there is no own property, the value read is
  \<^verbatim>\<open>undefined\<close>, or for a member name of \<^verbatim>\<open>Object.prototype\<close> the inherited
  member, which has no \<^verbatim>\<open>slice\<close>; the call throws a TypeError in both cases.
\<close>

fun slice_0_25 :: "string \<Rightarrow> jsval list option \<Rightarrow> jsval list io" where
  "slice_0_25 name None =
     throw (TypeError (if name \<in> set objectPrototype
                       then ''tokens.tokens[chain].slice is not a function''
                       else ''Cannot read properties of undefined (reading 'slice')''))"
| "slice_0_25 name (Some ts) = return_io (take 25 ts)"

definition tokens_json :: "(nat \<times> jsval list) list \<Rightarrow> jsval" where
  "tokens_json tokens =
     JObject [(''tokens'', JObject (map (\<lambda>(chainId, ts). (decimal chainId, JArray ts)) tokens))]"

text \<open>
  A \<^verbatim>\<open>TokenAmount\<close> as the value \<^verbatim>\<open>safeStringify\<close> is given. Where \<^verbatim>\<open>amount\<close>
  stands among the members of the object is not modelled: it is written last.
\<close>

definition tokenAmount_json :: "tokenAmount \<Rightarrow> jsval" where
  "tokenAmount_json b =
     JObject (others b @ [(''amount'', case amount b of None \<Rightarrow> JUndefined | Some n \<Rightarrow> JBigInt n)])"

fun ToString :: "string option \<Rightarrow> string" where
  "ToString None = ''undefined''"
| "ToString (Some s) = s"

text \<open>\<^verbatim>\<open>if (!res.ok) throw new Error(`HTTP ${res.status}: ${await res.text()}`)\<close>
  followed by \<^verbatim>\<open>await res.json()\<close>.\<close>

definition json_if_ok :: "response \<Rightarrow> jsval io" where
  "json_if_ok res =
     bind_io (if \<not> ok res
              then bind_io (lift (body_text res))
                     (\<lambda>t. throw (Error (''HTTP '' @ decimal (status res) @ '': '' @ t)))
              else return_io ())
       (\<lambda>_. lift (body_json res))"

fun optional :: "string \<Rightarrow> string option \<Rightarrow> (string \<times> string) list" where
  "optional name None = []"
| "optional name (Some v) = [(name, v)]"

fun if_truthy :: "string option \<Rightarrow> string option" where
  "if_truthy None = None"
| "if_truthy (Some s) = (if s = [] then None else Some s)"

subsection \<open>The handlers\<close>

text \<open>
  Every handler of the POST branch has the shape
  \<^verbatim>\<open>async (args) => { try { ... return ok } catch (error: any) { return failed } }\<close>.
  \<open>try_block\<close> is the body of the \<^verbatim>\<open>try\<close> of each tool, \<open>catch_block\<close> the object
  returned by its \<^verbatim>\<open>catch\<close>, which reads \<^verbatim>\<open>error.message\<close>, when what it caught
  is an Error object; \<open>catch_clause\<close> below is the same block for anything caught.
\<close>

fun try_block :: "sdk \<Rightarrow> nat \<Rightarrow> tool \<Rightarrow> envelope io" where
  "try_block sdk now (Swap p) =
     bind_io (remote (GetQuote p False) (\<lambda>k. getQuote sdk k p False))
       (\<lambda>quote. return_io (QuoteContent p lifiProtocol quote))"
| "try_block sdk now (Bridge p) =
     bind_io (remote (GetQuote p True) (\<lambda>k. getQuote sdk k p True))
       (\<lambda>quote. return_io (QuoteContent p lifiProtocol quote))"
| "try_block sdk now Chains =
     bind_io (get_io now (cache_key ChainList))
       (\<lambda>cached. bind_io
          (unless_cached cached
             (bind_io (remote GetChains (getChains sdk))
                (\<lambda>fetched. bind_io (set_io now (cache_key ChainList) (JArray fetched) cacheTTL)
                   (\<lambda>_. return_io (JArray fetched)))))
          text_content)"
| "try_block sdk now (TokensOneChain chain) =
     bind_io (get_io now (cache_key (TokensOfChain chain)))
       (\<lambda>cached. bind_io
          (unless_cached cached
             (bind_io (remote (GetTokens (chains_of chain) True)
                         (\<lambda>k. getTokens sdk k (chains_of chain) True))
                (\<lambda>tokens. bind_io (slice_0_25 (property_name chain)
                                     (tokens_of tokens (property_name chain)))
                   (\<lambda>lessTokens.
                      bind_io (set_io now (cache_key (TokensOfChain chain)) (JArray lessTokens) (60 * 5))
                        (\<lambda>_. return_io (JArray lessTokens))))))
          text_content)"
| "try_block sdk now (TokensMultipleChains chainKeys) =
     bind_io (remote (GetTokens chainKeys True) (\<lambda>k. getTokens sdk k chainKeys True))
       (\<lambda>tokens. text_content (tokens_json (map (\<lambda>(chainId, ts). (chainId, take 25 ts)) tokens)))"
| "try_block sdk now (Token chain token) =
     bind_io (get_io now (cache_key (TokenOfChain chain token)))
       (\<lambda>cached. bind_io
          (unless_cached cached
             (bind_io (remote (GetToken chain token) (\<lambda>k. getToken sdk k chain token))
                (\<lambda>tokenInfo.
                   bind_io (set_io now (cache_key (TokenOfChain chain token)) (JObject tokenInfo) cacheTTL)
                     (\<lambda>_. return_io (JObject tokenInfo)))))
          text_content)"
| "try_block sdk now (Tools chainKeys) =
     bind_io (remote (GetTools chainKeys) (\<lambda>k. getTools sdk k chainKeys)) text_content"
| "try_block sdk now (QuoteToAmount fromChain toChain fromToken toToken toAmount fromAddress slippage) =
     (let url = ''https://li.quest/v1/quote/toAmount?'' @
            URLSearchParams_toString sdk
              ([(''fromChain'', fromChain), (''toChain'', toChain), (''fromToken'', fromToken),
                (''toToken'', toToken), (''toAmount'', toAmount), (''fromAddress'', fromAddress)]
               @ optional ''slippage'' slippage)
      in bind_io (remote (Fetch url) (\<lambda>k. fetch sdk k url))
           (\<lambda>res. bind_io (json_if_ok res) text_content))"
| "try_block sdk now (Connections fromChain fromToken toChain toToken) =
     bind_io (remote (GetConnections fromChain fromToken toChain toToken)
                (\<lambda>k. getConnections sdk k fromChain fromToken toChain toToken))
       text_content"
| "try_block sdk now (TokenBalance walletAddress chainId token) =
     bind_io (remote (GetToken chainId token) (\<lambda>k. getToken sdk k chainId token))
       (\<lambda>tokenObj.
          bind_io (remote (GetTokenBalance walletAddress (JObject tokenObj))
                     (\<lambda>k. getTokenBalance sdk k walletAddress (JObject tokenObj)))
            (\<lambda>balance.
               bind_io (lift (safeStringify balance))
                 (\<lambda>text. bind_io (lift (JSON_parse sdk (ToString text)))
                    (\<lambda>balance. return_io (BalanceContent balance)))))"
| "try_block sdk now (TokenBalances walletAddress chainId) =
     bind_io (remote (GetTokens (Some [chainId]) False) (\<lambda>k. getTokens sdk k (Some [chainId]) False))
       (\<lambda>tokens.
          bind_io (remote (GetTokenBalances walletAddress (tokens_of tokens chainId))
                     (\<lambda>k. getTokenBalances sdk k walletAddress (tokens_of tokens chainId)))
            (\<lambda>balances.
               bind_io (lift (safeStringify
                          (JArray (map tokenAmount_json
                             (filter (\<lambda>balance. case amount balance of None \<Rightarrow> False | Some n \<Rightarrow> 0 < n)
                                balances)))))
                 (\<lambda>text. bind_io (lift (JSON_parse sdk (ToString text)))
                    (\<lambda>balances. return_io (BalancesContent balances)))))"
| "try_block sdk now (TokenAllowance address chainId ownerAddress spenderAddress) =
     bind_io (remote (GetToken chainId address) (\<lambda>k. getToken sdk k chainId address))
       (\<lambda>tokenObj.
          bind_io (remote (GetTokenAllowance (JObject tokenObj) ownerAddress spenderAddress)
                     (\<lambda>k. getTokenAllowance sdk k (JObject tokenObj) ownerAddress spenderAddress))
            text_content)"
| "try_block sdk now (TokenAllowanceMulticall ownerAddress tokens) =
     bind_io (all_io (map (\<lambda>((address, chainId), spenderAddress).
                         bind_io (remote (GetToken chainId address) (\<lambda>k. getToken sdk k chainId address))
                           (\<lambda>tokenObj. return_io (JObject tokenObj, spenderAddress)))
                      tokens))
       (\<lambda>tokensWithSpender.
          bind_io (remote (GetTokenAllowanceMulticall ownerAddress tokensWithSpender)
                     (\<lambda>k. getTokenAllowanceMulticall sdk k ownerAddress tokensWithSpender))
            text_content)"
| "try_block sdk now (Routes fromChainId toChainId fromTokenAddress toTokenAddress fromAmount fromAddress) =
     bind_io (remote (GetRoutes fromChainId toChainId fromTokenAddress toTokenAddress fromAmount
                        (if_truthy fromAddress))
                (\<lambda>k. getRoutes sdk k fromChainId toChainId fromTokenAddress toTokenAddress fromAmount
                        (if_truthy fromAddress)))
       text_content"
| "try_block sdk now (GetStatusTool txHash bridge fromChain toChain) =
     bind_io (remote (GetStatus txHash bridge fromChain toChain)
                (\<lambda>k. getStatus sdk k txHash bridge fromChain toChain))
       text_content"
| "try_block sdk now (GasPrice chainId) =
     (let url = ''https://li.quest/v1/gas/prices/'' @ chainId
      in bind_io (remote (Fetch url) (\<lambda>k. fetch sdk k url))
           (\<lambda>res. bind_io (json_if_ok res) text_content))"
| "try_block sdk now GasPrices =
     (let url = ''https://li.quest/v1/gas/prices''
      in bind_io (remote (Fetch url) (\<lambda>k. fetch sdk k url))
           (\<lambda>res. bind_io (json_if_ok res) text_content))"

fun failure_prefix :: "tool \<Rightarrow> string" where
  "failure_prefix (Swap p) = ''Failed to get swap quote: ''"
| "failure_prefix (Bridge p) = ''Failed to get bridge quote: ''"
| "failure_prefix Chains = ''Failed to get chains: ''"
| "failure_prefix (TokensOneChain chain) = ''Failed to get tokens: ''"
| "failure_prefix (TokensMultipleChains chainKeys) = ''Failed to get tokens: ''"
| "failure_prefix (Token chain token) = ''Failed to get token info: ''"
| "failure_prefix (Tools chainKeys) = ''Failed to get tools: ''"
| "failure_prefix (QuoteToAmount a b c d e f g) = ''Failed to get quote by toAmount: ''"
| "failure_prefix (Connections a b c d) = ''Failed to get connections: ''"
| "failure_prefix (TokenBalance a b c) = ''Failed to get token balance: ''"
| "failure_prefix (TokenBalances a b) = ''Failed to get token balances: ''"
| "failure_prefix (TokenAllowance a b c d) = ''Failed to get token allowance: ''"
| "failure_prefix (TokenAllowanceMulticall a b) = ''Failed to get token allowance multicall: ''"
| "failure_prefix (Routes a b c d e f) = ''Failed to get routes: ''"
| "failure_prefix (GetStatusTool a b c d) = ''Failed to get status: ''"
| "failure_prefix (GasPrice chainId) = ''Failed to get gas price: ''"
| "failure_prefix GasPrices = ''Failed to get gas prices: ''"

fun catch_block :: "tool \<Rightarrow> error \<Rightarrow> envelope" where
  "catch_block (Swap p) error = QuoteError p lifiProtocol (failure_prefix (Swap p) @ error_message error)"
| "catch_block (Bridge p) error = QuoteError p lifiProtocol (failure_prefix (Bridge p) @ error_message error)"
| "catch_block (TokenBalance a b c) error =
     ErrorContent (failure_prefix (TokenBalance a b c) @ error_message error)"
| "catch_block (TokenBalances a b) error =
     ErrorContent (failure_prefix (TokenBalances a b) @ error_message error)"
| "catch_block tool error = Content (Some (failure_prefix tool @ error_message error))"

definition handler :: "sdk \<Rightarrow> nat \<Rightarrow> tool \<Rightarrow> envelope io" where
  "handler sdk now tool =
     try_catch (try_block sdk now tool) (\<lambda>error. return_io (catch_block tool error))"

subsection \<open>The try statement of a handler, for anything that is thrown\<close>

text \<open>
  The remote service, \<^verbatim>\<open>fetch\<close> and the runtime throw Error objects, and \<open>handler\<close>
  is the \<^verbatim>\<open>try\<close> statement for those. A promise may also be rejected with any other
  value, and \<^verbatim>\<open>catch (error: any)\<close> receives it as it is: an Error object (or any
  object whose \<^verbatim>\<open>message\<close> is a string), \<^verbatim>\<open>null\<close>, \<^verbatim>\<open>undefined\<close>, or a
  value with no member \<^verbatim>\<open>message\<close> (a string, a number, a plain object).
\<close>

datatype thrown = ErrorObject error | ThrownNull | ThrownUndefined | NoMessage







subsection \<open>Runs of the server\<close>

text \<open>
  A run of the server: at start the cache is empty and the module's top-level
  \<^verbatim>\<open>await getChains()\<close> has been issued; then tools are invoked one after the other,
  each at some time.
\<close>

definition startup :: world where
  "startup = \<lparr>cache = Map.empty, calls = [GetChains]\<rparr>"

fun run :: "sdk \<Rightarrow> (nat \<times> tool) list \<Rightarrow> world \<Rightarrow> world" where
  "run sdk [] w = w"
| "run sdk ((now, tool) # rest) w = run sdk rest (snd (handler sdk now tool w))"

text \<open>The operations on live state named by the spec: balances, allowances, transaction
  status and gas prices.\<close>

fun live_state :: "tool \<Rightarrow> bool" where
  "live_state (TokenBalance a b c) = True"
| "live_state (TokenBalances a b) = True"
| "live_state (TokenAllowance a b c d) = True"
| "live_state (TokenAllowanceMulticall a b) = True"
| "live_state (GetStatusTool a b c d) = True"
| "live_state (GasPrice chainId) = True"
| "live_state GasPrices = True"
| "live_state tool = False"

text \<open>An entry that a lookup at time \<open>now\<close> uses: present, not past its expiry, truthy.\<close>

definition fresh :: "nat \<Rightarrow> string \<Rightarrow> nodecache \<Rightarrow> bool" where
  "fresh now key data =
     (case data key of None \<Rightarrow> False | Some e \<Rightarrow> \<not> expiresAt e < now \<and> truthy (val e))"

text \<open>A sample remote service, for concrete runs.\<close>

definition sample_sdk :: sdk where
  "sample_sdk =
     \<lparr>getQuote = (\<lambda>k p b. Inr (JObject [(''id'', JNumber ''1'')])),
      getChains = (\<lambda>k. Inr [JObject [(''id'', JNumber ''1''), (''key'', JString ''eth'')]]),
      getTokens = (\<lambda>k chainKeys types.
         Inr [(1, replicate 30 (JObject [(''decimals'', JNumber ''18'')]))]),
      getToken = (\<lambda>k chain token.
         if token = ''XYZ'' then Inl (Error ''Unknown token'')
         else Inr [(''symbol'', JString token), (''call'', JBigInt (int k))]),
      getTools = (\<lambda>k chainKeys. Inr (JObject [])),
      getConnections = (\<lambda>k a b c d. Inr (JObject [])),
      getTokenBalance = (\<lambda>k wallet token.
         if wallet = [] then Inl (Error ''Invalid wallet address'')
         else Inr (JObject [(''amount'', JBigInt 18446744073709551616)])),
      getTokenBalances = (\<lambda>k wallet tokens. Inr [\<lparr>amount = Some 5, others = []\<rparr>]),
      getTokenAllowance = (\<lambda>k token owner spender. Inr (JBigInt 7)),
      getTokenAllowanceMulticall = (\<lambda>k owner tokens. Inr (JArray [])),
      getRoutes = (\<lambda>k a b c d e f. Inr (JObject [])),
      getStatus = (\<lambda>k txHash bridge a b. Inr (JObject [(''status'', JString ''DONE'')])),
      fetch = (\<lambda>k url. Inr (Response False 500 (Inr ''oops'') (Inl (SyntaxError ''Unexpected token'')))),
      JSON_parse = (\<lambda>s. Inr (JString s)),
      URLSearchParams_toString = (\<lambda>ps. concat (map (\<lambda>(k, v). k @ ''='' @ v @ ''&'') ps))\<rparr>"

section \<open>Notions used in the statements\<close>

text \<open>
  A step that neither reads nor writes the cache: run on a state with any other cache,
  it returns the same result and leaves that other cache in place.
\<close>

definition cache_blind :: "'a io \<Rightarrow> bool" where
  "cache_blind m = (\<forall>w c. m (w\<lparr>cache := c\<rparr>) = (fst (m w), (snd (m w))\<lparr>cache := c\<rparr>))"


text \<open>
  What every run keeps true of the cache: nothing is stored under \<^verbatim>\<open>tokens-all\<close>, and
  an entry whose key starts with \<^verbatim>\<open>tokens-\<close> holds an array of at most 25 elements.
\<close>

definition token_lists_bounded :: "nodecache \<Rightarrow> bool" where
  "token_lists_bounded data =
     (data ''tokens-all'' = None
      \<and> (\<forall>key e. data key = Some e \<and> take 7 key = ''tokens-''
            \<longrightarrow> (\<exists>ts. val e = JArray ts \<and> length ts \<le> 25)))"

text \<open>A step that only adds to the log of remote calls.\<close>

definition appends :: "'a io \<Rightarrow> bool" where
  "appends m = (\<forall>w. \<exists>cs. calls (snd (m w)) = calls w @ cs)"

text \<open>A step that issues at least one remote call, whatever the state.\<close>

definition issues_call :: "'a io \<Rightarrow> bool" where
  "issues_call m = (\<forall>w. \<exists>c cs. calls (snd (m w)) = calls w @ c # cs)"

text \<open>A step that keeps that property of the cache.\<close>

definition keeps_bounded :: "'a io \<Rightarrow> bool" where
  "keeps_bounded m =
     (\<forall>w. token_lists_bounded (cache w) \<longrightarrow> token_lists_bounded (cache (snd (m w))))"

text \<open>
  Where the cached token lists come from: every entry whose key starts with
  \<^verbatim>\<open>tokens-\<close> holds the first 25 tokens of the list that an earlier
  \<^verbatim>\<open>getTokens\<close> call of the log, issued for the chain of that key, was answered
  with.
\<close>

definition tokens_from_upstream :: "sdk \<Rightarrow> world \<Rightarrow> bool" where
  "tokens_from_upstream sdk w =
     (\<forall>key e. cache w key = Some e \<and> take 7 key = ''tokens-'' \<longrightarrow>
        (\<exists>k chain tokens all. k < length (calls w)
           \<and> calls w ! k = GetTokens (chains_of chain) True
           \<and> key = cache_key (TokensOfChain chain)
           \<and> getTokens sdk k (chains_of chain) True = Inr tokens
           \<and> tokens_of tokens (property_name chain) = Some all
           \<and> val e = JArray (take 25 all)))"



section \<open>Properties of the session registry and the router\<close>

lemma uuid_chars_length: "uuid_chars i s \<Longrightarrow> i + length s = 36"
  by (induction i s rule: uuid_chars.induct) auto

lemma objectPrototype_length: "s \<in> set objectPrototype \<Longrightarrow> length s \<le> 20"
  by (auto simp: objectPrototype_def)

lemma isUUID_own_only: "isUUID s \<Longrightarrow> s \<noteq> [] \<and> s \<notin> set objectPrototype"
  using uuid_chars_length [of 0 s] objectPrototype_length [of s]
  by (auto simp: isUUID_def)

lemma fire_all_unregistered:
  "\<not> list_ex (registers s) cs \<Longrightarrow> ts s = None \<Longrightarrow> fire_all cs ts s = None"
proof (induction cs arbitrary: ts)
  case Nil
  then show ?case by simp
next
  case (Cons c cs)
  then have "fire c ts s = None"
    by (cases c) (auto simp: onsessioninitialized_def onclose_def split: option.splits)
  with Cons show ?case by simp
qed

text \<open>
  The routing table of the POST handler, branch by branch. A session id that names no
  own property of the registry but a member of \<^verbatim>\<open>Object.prototype\<close> takes the
  existing-session branch.
\<close>

lemma post_mcp_routing:
  "post_mcp isInitializeRequest req g =
     (case mcp_session_id req of
        None \<Rightarrow> if isInitializeRequest (body req)
                then (HandleRequest (StreamableHTTPServerTransport (constructed g)),
                      g\<lparr>constructed := Suc (constructed g)\<rparr>)
                else (Status 400 (Json bad_request), g)
      | Some s \<Rightarrow>
          if s = [] then
            if isInitializeRequest (body req)
            then (HandleRequest (StreamableHTTPServerTransport (constructed g)),
                  g\<lparr>constructed := Suc (constructed g)\<rparr>)
            else (Status 400 (Json bad_request), g)
          else (case transports g s of
                  Some transport \<Rightarrow> (HandleRequest transport, g)
                | None \<Rightarrow> if s \<in> set objectPrototype
                          then (Throws ''TypeError: transport.handleRequest is not a function'', g)
                          else (Status 400 (Json bad_request), g)))"
  by (simp add: post_mcp_def lookup_def get_property_def Let_def split: option.splits)

text \<open>
  C1. A POST whose session header is \<^verbatim>\<open>constructor\<close>, a token that was never
  registered, is not rejected with the structured bad-request error: the lookup
  \<^verbatim>\<open>transports[sessionId]\<close> finds the member inherited from
  \<^verbatim>\<open>Object.prototype\<close>, the handler takes the existing-session branch, and the call
  of \<^verbatim>\<open>handleRequest\<close> on that value throws. No response is written by the handler.
\<close>

theorem post_inherited_name_not_rejected:
  "post_mcp isInitializeRequest \<lparr>mcp_session_id = Some ''constructor'', body = b\<rparr>
     \<lparr>transports = Map.empty, constructed = 0\<rparr>
   = (Throws ''TypeError: transport.handleRequest is not a function'',
      \<lparr>transports = Map.empty, constructed = 0\<rparr>)"
  by (simp add: post_mcp_def lookup_def get_property_def objectPrototype_def)

text \<open>
  C2. For a session id generated by \<^verbatim>\<open>randomUUID\<close>: right after the transport
  announced it (\<^verbatim>\<open>onsessioninitialized\<close>), the lookup of the id finds that
  transport; after the close notification of the transport the lookup fails, and it
  keeps failing whatever callbacks fire later, as long as none registers the same id
  again (ids are never reused); a second close notification for the id changes nothing;
  a close notification for an id that is not registered, or of a transport that has no
  session id, changes nothing. The callbacks are total: none raises.
\<close>

theorem session_registry_lifecycle:
  assumes "isUUID sessionId" and "\<not> list_ex (registers sessionId) later"
  shows "lookup (onsessioninitialized transport sessionId ts) (Some sessionId) = Own transport
    \<and> lookup (onclose (Some sessionId) ts') (Some sessionId) = Undefined
    \<and> lookup (fire_all later (onclose (Some sessionId) ts')) (Some sessionId) = Undefined
    \<and> onclose (Some sessionId) (onclose (Some sessionId) ts') = onclose (Some sessionId) ts'
    \<and> (ts' other = None \<longrightarrow> onclose (Some other) ts' = ts')
    \<and> onclose None ts' = ts'"
proof -
  from assms(1) have ne: "sessionId \<noteq> []" and own: "sessionId \<notin> set objectPrototype"
    using isUUID_own_only by blast+
  have gone: "onclose (Some sessionId) ts' sessionId = None"
    using ne by (simp add: onclose_def)
  have later: "fire_all later (onclose (Some sessionId) ts') sessionId = None"
    using assms(2) gone by (rule fire_all_unregistered)
  have "lookup (onsessioninitialized transport sessionId ts) (Some sessionId) = Own transport"
    using ne by (simp add: lookup_def get_property_def onsessioninitialized_def)
  moreover have "lookup (onclose (Some sessionId) ts') (Some sessionId) = Undefined"
    using ne own gone by (simp add: lookup_def get_property_def)
  moreover have "lookup (fire_all later (onclose (Some sessionId) ts')) (Some sessionId) = Undefined"
    using ne own later by (simp add: lookup_def get_property_def)
  moreover have "onclose (Some sessionId) (onclose (Some sessionId) ts') = onclose (Some sessionId) ts'"
    by (simp add: onclose_def)
  moreover have "ts' other = None \<longrightarrow> onclose (Some other) ts' = ts'"
    by (auto simp: onclose_def fun_eq_iff)
  moreover have "onclose None ts' = ts'"
    by (simp add: onclose_def)
  ultimately show ?thesis by blast
qed

theorem session_registry_lifecycle_witness:
  "isUUID ''123e4567-e89b-42d3-a456-426614174000''
   \<and> \<not> list_ex (registers ''123e4567-e89b-42d3-a456-426614174000'')
        [Closed (Some ''123e4567-e89b-42d3-a456-426614174000''),
         SessionInitialized (StreamableHTTPServerTransport 1) ''00000000-0000-4000-8000-000000000001'']
   \<and> lookup (onsessioninitialized (StreamableHTTPServerTransport 0)
        ''123e4567-e89b-42d3-a456-426614174000'' Map.empty)
        (Some ''123e4567-e89b-42d3-a456-426614174000'') = Own (StreamableHTTPServerTransport 0)
   \<and> lookup (fire_all
        [Closed (Some ''123e4567-e89b-42d3-a456-426614174000''),
         SessionInitialized (StreamableHTTPServerTransport 1) ''00000000-0000-4000-8000-000000000001'']
        (onclose (Some ''123e4567-e89b-42d3-a456-426614174000'')
          (onsessioninitialized (StreamableHTTPServerTransport 0)
            ''123e4567-e89b-42d3-a456-426614174000'' Map.empty)))
        (Some ''123e4567-e89b-42d3-a456-426614174000'') = Undefined"
proof -
  have u: "isUUID ''123e4567-e89b-42d3-a456-426614174000''"
    by (simp add: isUUID_def)
  have l: "\<not> list_ex (registers ''123e4567-e89b-42d3-a456-426614174000'')
        [Closed (Some ''123e4567-e89b-42d3-a456-426614174000''),
         SessionInitialized (StreamableHTTPServerTransport 1) ''00000000-0000-4000-8000-000000000001'']"
    by simp
  show ?thesis
    using u l session_registry_lifecycle [OF u l, of "StreamableHTTPServerTransport 0" Map.empty
      "onsessioninitialized (StreamableHTTPServerTransport 0)
            ''123e4567-e89b-42d3-a456-426614174000'' Map.empty" undefined]
    by blast
qed

text \<open>
  C4, as the code has it. A GET or DELETE whose session header is absent or empty, or
  names a session that is neither registered nor a member name of
  \<^verbatim>\<open>Object.prototype\<close>, is answered with status 400 and the plain text
  \<^verbatim>\<open>Invalid or missing session ID\<close>; the registry and the count of constructed
  transports are unchanged, so no session is created.
\<close>

theorem session_request_rejected:
  assumes "\<not> truthy_header (mcp_session_id req)
     \<or> (\<exists>s. mcp_session_id req = Some s \<and> transports g s = None \<and> s \<notin> set objectPrototype)"
  shows "handleSessionRequest req g = (Status 400 (Send ''Invalid or missing session ID''), g)"
  using assms
  by (auto simp: handleSessionRequest_def lookup_def get_property_def Let_def split: option.splits)

theorem session_request_rejected_witness:
  "transports \<lparr>transports = [''S1'' \<mapsto> StreamableHTTPServerTransport 0], constructed = 1\<rparr> ''S2'' = None
   \<and> ''S2'' \<notin> set objectPrototype
   \<and> handleSessionRequest \<lparr>mcp_session_id = Some ''S2'', body = ()\<rparr>
        \<lparr>transports = [''S1'' \<mapsto> StreamableHTTPServerTransport 0], constructed = 1\<rparr>
      = (Status 400 (Send ''Invalid or missing session ID''),
         \<lparr>transports = [''S1'' \<mapsto> StreamableHTTPServerTransport 0], constructed = 1\<rparr>)"
  using session_request_rejected [of "\<lparr>mcp_session_id = Some ''S2'', body = ()\<rparr>"
      "\<lparr>transports = [''S1'' \<mapsto> StreamableHTTPServerTransport 0], constructed = 1\<rparr>"]
  by (simp add: objectPrototype_def)

text \<open>
  C4, as the claim states it, fails: the body sent for a rejected GET or DELETE is a
  plain text, not the structured object (code, message, null id) that a rejected POST
  sends for the same request.
\<close>

theorem session_request_plain_text:
  "handleSessionRequest \<lparr>mcp_session_id = None, body = ()\<rparr> \<lparr>transports = Map.empty, constructed = 0\<rparr>
     = (Status 400 (Send ''Invalid or missing session ID''), \<lparr>transports = Map.empty, constructed = 0\<rparr>)
   \<and> post_mcp (\<lambda>b. False) \<lparr>mcp_session_id = None, body = ()\<rparr> \<lparr>transports = Map.empty, constructed = 0\<rparr>
     = (Status 400 (Json bad_request), \<lparr>transports = Map.empty, constructed = 0\<rparr>)
   \<and> Send ''Invalid or missing session ID'' \<noteq> Json bad_request"
  by (simp add: handleSessionRequest_def post_mcp_def lookup_def)

section \<open>Properties of the cache keys\<close>

text \<open>
  C7, as the claim states it, fails: the token lookups for chain \<^verbatim>\<open>a-b\<close>, token
  \<^verbatim>\<open>c\<close> and for chain \<^verbatim>\<open>a\<close>, token \<^verbatim>\<open>b-c\<close> are different argument tuples of
  one operation with the same key \<^verbatim>\<open>token-a-b-c\<close>.
\<close>

theorem cache_key_collision:
  "cache_key (TokenOfChain ''a-b'' ''c'') = cache_key (TokenOfChain ''a'' ''b-c'')
   \<and> TokenOfChain ''a-b'' ''c'' \<noteq> TokenOfChain ''a'' ''b-c''"
  by simp

text \<open>
  C7, as the code has it. Two lookups with the same key belong to the same operation.
  Two token lists with the same key have the same chain once an absent or empty chain
  is read as \<^verbatim>\<open>all\<close>. Two token lookups with the same key, whose chains contain
  no hyphen, have the same chain and the same token.
\<close>

theorem cache_key_separation:
  assumes "cache_key a = cache_key b"
  shows "same_operation a b
    \<and> (\<forall>c c'. a = TokensOfChain c \<and> b = TokensOfChain c' \<longrightarrow> or_all c = or_all c')
    \<and> (\<forall>c t c' t'. a = TokenOfChain c t \<and> b = TokenOfChain c' t'
          \<and> CHR ''-'' \<notin> set c \<and> CHR ''-'' \<notin> set c' \<longrightarrow> c = c' \<and> t = t')"
proof -
  have tok: "c = c' \<and> t = t'"
    if "c @ CHR ''-'' # t = c' @ CHR ''-'' # t'" "CHR ''-'' \<notin> set c" "CHR ''-'' \<notin> set c'"
    for c t c' t' :: string
    using that by (induction c arbitrary: c') (auto simp: Cons_eq_append_conv append_eq_Cons_conv)
  show ?thesis
    using assms by (cases a; cases b) (auto dest: tok)
qed

theorem cache_key_separation_witness:
  "cache_key (TokensOfChain None) = cache_key (TokensOfChain (Some ''all''))
   \<and> same_operation (TokensOfChain None) (TokensOfChain (Some ''all''))
   \<and> or_all None = or_all (Some ''all'')"
  using cache_key_separation [of "TokensOfChain None" "TokensOfChain (Some ''all'')"]
  by simp

section \<open>Properties of safeStringify\<close>

declare decimal.simps [simp del]

lemma decimal_small: "n < 10 \<Longrightarrow> decimal n = [digit n]"
  by (simp add: decimal.simps)

lemma decimal_large: "\<not> n < 10 \<Longrightarrow> decimal n = decimal (n div 10) @ [digit (n mod 10)]"
  by (subst decimal.simps) simp

lemma digit_cases:
  "d < 10 \<Longrightarrow> digit d \<in> set ''0123456789'' \<and> digit_value (digit d) = d"
proof -
  assume "d < 10"
  then have "d \<in> set [0, 1, 2, 3, 4, 5, 6, 7, 8, 9]"
    by (simp del: One_nat_def) arith
  then show ?thesis
    by (auto simp: digit_def digit_value_def)
qed

lemma decimal_digits: "set (decimal n) \<subseteq> set ''0123456789''"
proof (induction n rule: decimal.induct)
  case (1 n)
  show ?case
  proof (cases "n < 10")
    case True
    then show ?thesis using digit_cases [of n] by (simp add: decimal_small)
  next
    case False
    moreover have "digit (n mod 10) \<in> set ''0123456789''"
      using digit_cases [of "n mod 10"] by simp
    ultimately show ?thesis using 1 by (simp add: decimal_large)
  qed
qed

lemma decimal_nonempty: "decimal n \<noteq> []"
  by (cases "n < 10") (simp_all add: decimal_small decimal_large)









lemma sequence_map:
  "(\<And>x. x \<in> set xs \<Longrightarrow> f x = Inr (g x)) \<Longrightarrow> sequence (map f xs) = Inr (map g xs)"
  by (induction xs) auto

lemma safeStringify_result: "safeStringify obj = Inr (rendered (safeStringify obj))"
proof (induction obj)
  case (JArray xs)
  have "sequence (map (\<lambda>x. SerializeJSONProperty (replacer x)) xs)
        = Inr (map (\<lambda>x. rendered (safeStringify x)) xs)"
    using JArray by (intro sequence_map) (simp add: safeStringify_def)
  then show ?case by (simp add: safeStringify_def replacer_def)
next
  case (JObject kvs)
  have "sequence (map (\<lambda>(k, x). case SerializeJSONProperty (replacer x) of
                                      Inl e \<Rightarrow> Inl e | Inr r \<Rightarrow> Inr (k, r)) kvs)
        = Inr (map (\<lambda>(k, x). (k, rendered (safeStringify x))) kvs)"
  proof (intro sequence_map)
    fix p assume "p \<in> set kvs"
    then have "safeStringify (snd p) = Inr (rendered (safeStringify (snd p)))"
      by (rule JObject [OF _ snds.intros])
    then have "SerializeJSONProperty (replacer (snd p))
               = Inr (rendered (safeStringify (snd p)))"
      by (simp add: safeStringify_def)
    then show "(case p of (k, x) \<Rightarrow> case SerializeJSONProperty (replacer x) of
                  Inl e \<Rightarrow> Inl e | Inr r \<Rightarrow> Inr (k, r))
               = Inr (case p of (k, x) \<Rightarrow> (k, rendered (safeStringify x)))"
      by (cases p) simp
  qed
  then show ?case by (simp add: safeStringify_def replacer_def)
qed (simp_all add: safeStringify_def replacer_def)




subsection \<open>Texts that occur in order\<close>


















section \<open>Properties of the tool handlers\<close>

subsection \<open>Steps that neither read nor write the cache\<close>

lemma cache_blind_return: "cache_blind (return_io a)"
  by (simp add: cache_blind_def return_io_def)

lemma cache_blind_throw: "cache_blind (throw e)"
  by (simp add: cache_blind_def throw_def)

lemma cache_blind_lift: "cache_blind (lift r)"
  by (simp add: cache_blind_def lift_def)

lemma cache_blind_remote: "cache_blind (remote c respond)"
  by (simp add: cache_blind_def remote_def)

lemma cache_blind_bind:
  assumes "cache_blind m" and "\<And>a. cache_blind (f a)"
  shows "cache_blind (bind_io m f)"
proof -
  have "bind_io m f (w\<lparr>cache := c\<rparr>) = (fst (bind_io m f w), (snd (bind_io m f w))\<lparr>cache := c\<rparr>)"
    for w c
  proof (cases "m w")
    case (Pair r w')
    then have m: "m (w\<lparr>cache := c\<rparr>) = (r, w'\<lparr>cache := c\<rparr>)"
      using assms(1) by (simp add: cache_blind_def)
    show ?thesis
    proof (cases r)
      case (Inl e)
      with Pair m show ?thesis by (simp add: bind_io_def)
    next
      case (Inr a)
      with Pair m assms(2) [of a] show ?thesis by (simp add: bind_io_def cache_blind_def)
    qed
  qed
  then show ?thesis by (simp add: cache_blind_def)
qed

lemma cache_blind_try_catch:
  assumes "cache_blind m" and "\<And>e. cache_blind (h e)"
  shows "cache_blind (try_catch m h)"
proof -
  have "try_catch m h (w\<lparr>cache := c\<rparr>) = (fst (try_catch m h w), (snd (try_catch m h w))\<lparr>cache := c\<rparr>)"
    for w c
  proof (cases "m w")
    case (Pair r w')
    then have m: "m (w\<lparr>cache := c\<rparr>) = (r, w'\<lparr>cache := c\<rparr>)"
      using assms(1) by (simp add: cache_blind_def)
    show ?thesis
    proof (cases r)
      case (Inl e)
      with Pair m assms(2) [of e] show ?thesis by (simp add: try_catch_def cache_blind_def)
    next
      case (Inr a)
      with Pair m show ?thesis by (simp add: try_catch_def)
    qed
  qed
  then show ?thesis by (simp add: cache_blind_def)
qed

lemma cache_blind_all:
  "(\<And>m. m \<in> set ms \<Longrightarrow> cache_blind m) \<Longrightarrow> cache_blind (all_io ms)"
proof (induction ms)
  case Nil
  then show ?case by (simp add: cache_blind_return)
next
  case (Cons m ms)
  then have m: "cache_blind m" and ms: "cache_blind (all_io ms)" by simp_all
  have "all_io (m # ms) (w\<lparr>cache := c\<rparr>)
        = (fst (all_io (m # ms) w), (snd (all_io (m # ms) w))\<lparr>cache := c\<rparr>)" for w c
  proof (cases "m w")
    case (Pair r w')
    then have 1: "m (w\<lparr>cache := c\<rparr>) = (r, w'\<lparr>cache := c\<rparr>)"
      using m by (simp add: cache_blind_def)
    obtain rs w'' where 2: "all_io ms w' = (rs, w'')" by (cases "all_io ms w'")
    then have 3: "all_io ms (w'\<lparr>cache := c\<rparr>) = (rs, w''\<lparr>cache := c\<rparr>)"
      using ms by (simp add: cache_blind_def)
    from Pair 1 2 3 show ?thesis by simp
  qed
  then show ?case by (simp add: cache_blind_def)
qed

lemma cache_blind_text_content: "cache_blind (text_content v)"
  unfolding text_content_def
  by (intro cache_blind_bind cache_blind_lift cache_blind_return)

lemma cache_blind_json_if_ok: "cache_blind (json_if_ok res)"
  unfolding json_if_ok_def
  by (intro cache_blind_bind cache_blind_lift cache_blind_return cache_blind_throw)
     (simp add: cache_blind_bind cache_blind_lift cache_blind_return cache_blind_throw)

lemmas cache_blind_intros =
  cache_blind_bind cache_blind_remote cache_blind_return cache_blind_throw cache_blind_lift
  cache_blind_text_content cache_blind_json_if_ok cache_blind_all

lemma cache_blind_unchanged: "cache_blind m \<Longrightarrow> cache (snd (m w)) = cache w"
proof -
  assume "cache_blind m"
  then have "m (w\<lparr>cache := cache w\<rparr>) = (fst (m w), (snd (m w))\<lparr>cache := cache w\<rparr>)"
    unfolding cache_blind_def by blast
  then have "snd (m w) = (snd (m w))\<lparr>cache := cache w\<rparr>"
    by (metis snd_conv world.surjective world.update_convs(1))
  then show ?thesis
    by (metis world.select_convs(1) world.surjective world.update_convs(1))
qed

lemma cache_blind_try_block:
  "tool \<noteq> Chains \<Longrightarrow> (\<forall>chain. tool \<noteq> TokensOneChain chain)
   \<Longrightarrow> (\<forall>chain token. tool \<noteq> Token chain token) \<Longrightarrow> cache_blind (try_block sdk now tool)"
  by (cases tool) (auto simp: Let_def split_def intro!: cache_blind_intros)

lemma cache_blind_handler:
  "tool \<noteq> Chains \<Longrightarrow> (\<forall>chain. tool \<noteq> TokensOneChain chain)
   \<Longrightarrow> (\<forall>chain token. tool \<noteq> Token chain token) \<Longrightarrow> cache_blind (handler sdk now tool)"
  unfolding handler_def
  by (intro cache_blind_try_catch cache_blind_try_block cache_blind_return)

subsection \<open>The try statement on Error objects\<close>

lemma handler_result:
  "handler sdk now tool w =
     (case try_block sdk now tool w of
        (Inl e, w') \<Rightarrow> (Inr (catch_block tool e), w')
      | (Inr envelope, w') \<Rightarrow> (Inr envelope, w'))"
  by (simp add: handler_def try_catch_def return_io_def split: prod.splits sum.splits)


subsection \<open>Steps that only add remote calls\<close>

lemma appends_return: "appends (return_io a)"
  by (simp add: appends_def return_io_def)

lemma appends_throw: "appends (throw e)"
  by (simp add: appends_def throw_def)

lemma appends_lift: "appends (lift r)"
  by (simp add: appends_def lift_def)

lemma appends_remote: "appends (remote c respond)"
  by (simp add: appends_def remote_def)

lemma appends_get: "appends (get_io now key)"
  by (simp add: appends_def get_io_def)

lemma appends_set: "appends (set_io now key v ttl)"
  by (simp add: appends_def set_io_def)

lemma appends_bind:
  assumes "appends m" and "\<And>a. appends (f a)"
  shows "appends (bind_io m f)"
proof -
  have "\<exists>cs. calls (snd (bind_io m f w)) = calls w @ cs" for w
  proof (cases "m w")
    case (Pair r w')
    then obtain cs where 1: "calls w' = calls w @ cs"
      using assms(1) unfolding appends_def by (metis snd_conv)
    show ?thesis
    proof (cases r)
      case (Inl e)
      with Pair 1 show ?thesis by (simp add: bind_io_def)
    next
      case (Inr a)
      obtain cs' where "calls (snd (f a w')) = calls w' @ cs'"
        using assms(2) [of a] unfolding appends_def by blast
      with Pair Inr 1 show ?thesis by (simp add: bind_io_def)
    qed
  qed
  then show ?thesis by (simp add: appends_def)
qed

lemma appends_all: "(\<And>m. m \<in> set ms \<Longrightarrow> appends m) \<Longrightarrow> appends (all_io ms)"
proof (induction ms)
  case Nil
  then show ?case by (simp add: appends_return)
next
  case (Cons m ms)
  then have m: "appends m" and ms: "appends (all_io ms)" by simp_all
  have "\<exists>cs. calls (snd (all_io (m # ms) w)) = calls w @ cs" for w
  proof -
    obtain r w' where 1: "m w = (r, w')" by (cases "m w")
    obtain rs w'' where 2: "all_io ms w' = (rs, w'')" by (cases "all_io ms w'")
    obtain cs where 3: "calls w' = calls w @ cs"
      using m 1 unfolding appends_def by (metis snd_conv)
    obtain cs' where 4: "calls w'' = calls w' @ cs'"
      using ms 2 unfolding appends_def by (metis snd_conv)
    from 1 2 3 4 show ?thesis by simp
  qed
  then show ?case by (simp add: appends_def)
qed

lemma appends_unless_cached: "appends block \<Longrightarrow> appends (unless_cached cached block)"
  by (simp add: unless_cached_def appends_return split: option.splits)

lemma appends_slice: "appends (slice_0_25 name ts)"
  by (cases ts) (simp_all add: appends_throw appends_return)

lemma appends_text_content: "appends (text_content v)"
  unfolding text_content_def by (intro appends_bind appends_lift appends_return)

lemma appends_json_if_ok: "appends (json_if_ok res)"
  unfolding json_if_ok_def
  by (intro appends_bind appends_lift appends_return)
     (simp add: appends_bind appends_lift appends_return appends_throw)

lemmas appends_intros =
  appends_bind appends_remote appends_return appends_throw appends_lift appends_get appends_set
  appends_unless_cached appends_slice appends_text_content appends_json_if_ok appends_all

lemma appends_try_block: "appends (try_block sdk now tool)"
  by (cases tool) (auto simp: Let_def split_def intro!: appends_intros)

lemma handler_world: "snd (handler sdk now tool w) = snd (try_block sdk now tool w)"
  by (simp add: handler_result split: prod.splits sum.splits)

lemma issues_remote: "issues_call (remote c respond)"
  by (simp add: issues_call_def remote_def)

lemma issues_bind:
  assumes "issues_call m" and "\<And>a. appends (f a)"
  shows "issues_call (bind_io m f)"
proof -
  have "\<exists>c cs. calls (snd (bind_io m f w)) = calls w @ c # cs" for w
  proof (cases "m w")
    case (Pair r w')
    then obtain c cs where 1: "calls w' = calls w @ c # cs"
      using assms(1) unfolding issues_call_def by (metis snd_conv)
    show ?thesis
    proof (cases r)
      case (Inl e)
      with Pair 1 show ?thesis by (simp add: bind_io_def)
    next
      case (Inr a)
      obtain cs' where "calls (snd (f a w')) = calls w' @ cs'"
        using assms(2) [of a] unfolding appends_def by blast
      with Pair Inr 1 show ?thesis by (simp add: bind_io_def)
    qed
  qed
  then show ?thesis by (simp add: issues_call_def)
qed

lemma issues_all_Cons:
  assumes "issues_call m" and "appends (all_io ms)"
  shows "issues_call (all_io (m # ms))"
proof -
  have "\<exists>c cs. calls (snd (all_io (m # ms) w)) = calls w @ c # cs" for w
  proof -
    obtain r w' where 1: "m w = (r, w')" by (cases "m w")
    obtain rs w'' where 2: "all_io ms w' = (rs, w'')" by (cases "all_io ms w'")
    obtain c cs where 3: "calls w' = calls w @ c # cs"
      using assms(1) 1 unfolding issues_call_def by (metis snd_conv)
    obtain cs' where 4: "calls w'' = calls w' @ cs'"
      using assms(2) 2 unfolding appends_def by (metis snd_conv)
    from 1 2 3 4 show ?thesis by simp
  qed
  then show ?thesis by (simp add: issues_call_def)
qed

lemma bind_return: "bind_io (return_io a) f = f a"
  by (simp add: bind_io_def return_io_def fun_eq_iff)

lemma issues_multicall:
  "issues_call (try_block sdk now (TokenAllowanceMulticall ownerAddress tokens))"
proof (cases tokens)
  case Nil
  then show ?thesis
    by (simp add: bind_return issues_bind issues_remote appends_text_content)
next
  case (Cons t ts)
  obtain address chainId spenderAddress where t: "t = ((address, chainId), spenderAddress)"
    by (cases t) auto
  have "issues_call (all_io (map (\<lambda>((address, chainId), spenderAddress).
                         bind_io (remote (GetToken chainId address) (\<lambda>k. getToken sdk k chainId address))
                           (\<lambda>tokenObj. return_io (JObject tokenObj, spenderAddress)))
                      (t # ts)))"
    unfolding list.map
    by (rule issues_all_Cons)
       (auto simp: t split_def intro!: issues_bind issues_remote appends_intros)
  then show ?thesis
    using Cons by (auto intro!: issues_bind appends_intros)
qed

lemma issues_try_block: "live_state tool \<Longrightarrow> issues_call (try_block sdk now tool)"
proof (cases tool)
  case (TokenAllowanceMulticall ownerAddress tokens)
  then show ?thesis using issues_multicall by simp
qed (auto simp: Let_def intro!: issues_bind issues_remote appends_intros)

text \<open>
  C6. A handler of a live-state operation (token balance and balances, token allowance
  and its multicall, transaction status, gas price and prices) neither reads nor writes
  the cache: with any other cache content it returns the same result and leaves that
  content in place. Every invocation issues at least one remote call, so two
  consecutive invocations with the same arguments issue one each.
\<close>

theorem live_state_not_cached:
  assumes "live_state tool"
  shows "cache_blind (handler sdk now tool)
    \<and> cache (snd (handler sdk now tool w)) = cache w
    \<and> (\<exists>c cs. calls (snd (handler sdk now tool w)) = calls w @ c # cs)
    \<and> (\<exists>c cs c' cs'. calls (snd (handler sdk now' tool (snd (handler sdk now tool w))))
                          = calls w @ c # cs @ c' # cs')"
proof -
  have blind: "cache_blind (handler sdk now tool)"
    using assms by (intro cache_blind_handler) auto
  have issues: "\<exists>c cs. calls (snd (handler sdk t tool v)) = calls v @ c # cs" for t v
    using issues_try_block [OF assms, of sdk t] unfolding issues_call_def handler_world by blast
  obtain c cs where 1: "calls (snd (handler sdk now tool w)) = calls w @ c # cs"
    using issues by blast
  obtain c' cs' where 2: "calls (snd (handler sdk now' tool (snd (handler sdk now tool w))))
      = calls (snd (handler sdk now tool w)) @ c' # cs'"
    using issues by blast
  from 1 2 have "calls (snd (handler sdk now' tool (snd (handler sdk now tool w))))
      = calls w @ c # cs @ c' # cs'" by simp
  with blind 1 show ?thesis
    using cache_blind_unchanged [OF blind, of w] by blast
qed

lemma sample_status_twice:
  "calls (snd (handler sample_sdk 1 (GetStatusTool ''0xabc'' None None None)
           (snd (handler sample_sdk 0 (GetStatusTool ''0xabc'' None None None) startup))))
   = [GetChains, GetStatus ''0xabc'' None None None, GetStatus ''0xabc'' None None None]"
  by (simp add: handler_world sample_sdk_def startup_def bind_io_def remote_def text_content_def
      lift_def return_io_def safeStringify_def replacer_def split: sum.splits)

theorem live_state_not_cached_witness:
  "live_state (GetStatusTool ''0xabc'' None None None)
   \<and> cache (snd (handler sample_sdk 0 (GetStatusTool ''0xabc'' None None None) startup)) = Map.empty
   \<and> calls (snd (handler sample_sdk 1 (GetStatusTool ''0xabc'' None None None)
           (snd (handler sample_sdk 0 (GetStatusTool ''0xabc'' None None None) startup))))
      = [GetChains, GetStatus ''0xabc'' None None None, GetStatus ''0xabc'' None None None]"
  using live_state_not_cached [of "GetStatusTool ''0xabc'' None None None" sample_sdk 0 startup 1]
    sample_status_twice
  by (simp add: startup_def)

subsection \<open>Cached lookups\<close>

lemma text_content_result:
  "text_content v w = (Inr (Content (rendered (safeStringify v))), w)"
  using safeStringify_result [of v]
  by (cases "safeStringify v") (simp_all add: text_content_def bind_io_def lift_def return_io_def)

lemma get_io_fresh:
  "fresh now key (cache w) \<Longrightarrow>
     \<exists>e. cache w key = Some e \<and> truthy (val e) \<and> get_io now key w = (Inr (Some (val e)), w)"
  by (auto simp: fresh_def get_io_def cache_get_def split: option.splits)

lemma get_io_stale:
  assumes "\<not> fresh now key (cache w)"
  shows "\<exists>cached c. get_io now key w = (Inr cached, w\<lparr>cache := c\<rparr>)
        \<and> (case cached of None \<Rightarrow> True | Some v \<Rightarrow> \<not> truthy v)
        \<and> \<not> fresh t key c \<and> (\<forall>k. k \<noteq> key \<longrightarrow> c k = cache w k)
        \<and> (c key = None \<or> c key = cache w key)"
proof (cases "cache w key")
  case None
  then have "get_io now key w = (Inr None, w\<lparr>cache := cache w\<rparr>)"
    by (simp add: get_io_def cache_get_def)
  moreover have "\<not> fresh t key (cache w)"
    using None by (simp add: fresh_def)
  ultimately show ?thesis
    by (intro exI [of _ None] exI [of _ "cache w"]) simp
next
  case (Some e)
  show ?thesis
  proof (cases "expiresAt e < now")
    case True
    with Some have "get_io now key w = (Inr None, w\<lparr>cache := (cache w)(key := None)\<rparr>)"
      by (simp add: get_io_def cache_get_def)
    moreover have "\<not> fresh t key ((cache w)(key := None))"
      by (simp add: fresh_def)
    ultimately show ?thesis
      by (intro exI [of _ None] exI [of _ "(cache w)(key := None)"]) simp
  next
    case False
    with Some assms have falsy: "\<not> truthy (val e)"
      by (simp add: fresh_def)
    from False Some have "get_io now key w = (Inr (Some (val e)), w\<lparr>cache := cache w\<rparr>)"
      by (simp add: get_io_def cache_get_def)
    moreover have "\<not> fresh t key (cache w)"
      using Some falsy by (simp add: fresh_def)
    ultimately show ?thesis using falsy
      by (intro exI [of _ "Some (val e)"] exI [of _ "cache w"]) simp
  qed
qed

text \<open>The shape shared by the handlers of \<^verbatim>\<open>chains\<close> and \<^verbatim>\<open>token\<close>.\<close>

lemma cached_hit:
  assumes "fresh now key (cache w)"
  shows "\<exists>e. cache w key = Some e \<and>
     bind_io (get_io now key) (\<lambda>cached. bind_io (unless_cached cached block) text_content) w
       = (Inr (Content (rendered (safeStringify (val e)))), w)"
proof -
  obtain e where e: "cache w key = Some e" "truthy (val e)"
      "get_io now key w = (Inr (Some (val e)), w)"
    using get_io_fresh [OF assms] by blast
  then show ?thesis
    by (simp add: bind_io_def unless_cached_def return_io_def text_content_result)
qed

lemma cached_miss:
  assumes "\<not> fresh now key (cache w)"
  shows "\<exists>c. \<not> fresh t key c \<and> (c key = None \<or> c key = cache w key)
       \<and> (\<forall>other. other \<noteq> key \<longrightarrow> c other = cache w other) \<and>
     bind_io (get_io now key)
       (\<lambda>cached. bind_io
          (unless_cached cached
             (bind_io (remote call respond)
                (\<lambda>x. bind_io (set_io now key (wrap x) ttl) (\<lambda>_. return_io (wrap x)))))
          text_content) w
       = (case respond (length (calls w)) of
            Inl e \<Rightarrow> (Inl e, w\<lparr>cache := c, calls := calls w @ [call]\<rparr>)
          | Inr x \<Rightarrow> (Inr (Content (rendered (safeStringify (wrap x)))),
                       w\<lparr>cache := cache_set now key (wrap x) ttl c, calls := calls w @ [call]\<rparr>))"
proof -
  obtain cached c where g: "get_io now key w = (Inr cached, w\<lparr>cache := c\<rparr>)"
      "case cached of None \<Rightarrow> True | Some v \<Rightarrow> \<not> truthy v" "\<not> fresh t key c"
      "c key = None \<or> c key = cache w key" "\<forall>other. other \<noteq> key \<longrightarrow> c other = cache w other"
    using get_io_stale [OF assms, of t] by blast
  have "unless_cached cached block = block" for block :: "jsval io"
    using g(2) by (cases cached) (simp_all add: unless_cached_def)
  then show ?thesis
    using g(1,3,4,5)
    by (intro exI [of _ c])
       (simp add: bind_io_def remote_def set_io_def return_io_def text_content_result
          split: sum.splits)
qed

text \<open>
  What a handler of that shape does, with its remote call, the way it stores the answer
  and its \<^verbatim>\<open>catch\<close>.
\<close>

lemma cached_pattern:
  fixes wrap :: "'a \<Rightarrow> jsval" and key :: string and call :: call
    and respond :: "nat \<Rightarrow> error + 'a" and ttl :: nat and k :: "error \<Rightarrow> envelope"
  defines "P \<equiv> \<lambda>now. bind_io (get_io now key)
       (\<lambda>cached. bind_io
          (unless_cached cached
             (bind_io (remote call respond)
                (\<lambda>x. bind_io (set_io now key (wrap x) ttl) (\<lambda>_. return_io (wrap x)))))
          text_content)"
  defines "H \<equiv> \<lambda>now. try_catch (P now) (\<lambda>e. return_io (k e))"
  assumes wrap: "\<And>x. truthy (wrap x)"
  shows "(fresh t1 key (cache w) \<longrightarrow>
          (\<exists>e. cache w key = Some e
             \<and> H t1 w = (Inr (Content (rendered (safeStringify (val e)))), w)))
    \<and> (\<not> fresh t1 key (cache w) \<longrightarrow>
          calls (snd (H t1 w)) = calls w @ [call]
          \<and> (\<forall>other. other \<noteq> key \<longrightarrow> cache (snd (H t1 w)) other = cache w other)
          \<and> (case respond (length (calls w)) of
                Inl e \<Rightarrow> fst (H t1 w) = Inr (k e)
                  \<and> (cache (snd (H t1 w)) key = None \<or> cache (snd (H t1 w)) key = cache w key)
              | Inr x \<Rightarrow> fst (H t1 w) = Inr (Content (rendered (safeStringify (wrap x))))
                  \<and> cache (snd (H t1 w)) key = Some \<lparr>val = wrap x, expiresAt = t1 + ttl\<rparr>
                  \<and> (\<forall>t. t \<le> t1 + ttl \<longrightarrow> fresh t key (cache (snd (H t1 w))))))
    \<and> (fresh t2 key (cache (snd (H t1 w))) \<longrightarrow>
          H t2 (snd (H t1 w)) = H t1 w
          \<and> length (calls (snd (H t2 (snd (H t1 w))))) \<le> Suc (length (calls w)))"
proof -
  have hit: "\<exists>e. cache v key = Some e \<and> H t v = (Inr (Content (rendered (safeStringify (val e)))), v)"
    if fr: "fresh t key (cache v)" for t v
  proof -
    obtain e where "cache v key = Some e"
      "P t v = (Inr (Content (rendered (safeStringify (val e)))), v)"
      using cached_hit [OF fr, where block = "bind_io (remote call respond)
                (\<lambda>x. bind_io (set_io t key (wrap x) ttl) (\<lambda>_. return_io (wrap x)))"]
      unfolding P_def by blast
    then show ?thesis by (simp add: H_def try_catch_def)
  qed
  have miss: "\<exists>c. \<not> fresh t' key c \<and> (c key = None \<or> c key = cache v key)
       \<and> (\<forall>other. other \<noteq> key \<longrightarrow> c other = cache v other) \<and>
       (case respond (length (calls v)) of
          Inl e \<Rightarrow> H t v = (Inr (k e), v\<lparr>cache := c, calls := calls v @ [call]\<rparr>)
        | Inr x \<Rightarrow> H t v = (Inr (Content (rendered (safeStringify (wrap x)))),
                       v\<lparr>cache := cache_set t key (wrap x) ttl c, calls := calls v @ [call]\<rparr>))"
    if st: "\<not> fresh t key (cache v)" for t t' v
  proof -
    obtain c where c: "\<not> fresh t' key c" "c key = None \<or> c key = cache v key"
      "\<forall>other. other \<noteq> key \<longrightarrow> c other = cache v other"
      "P t v = (case respond (length (calls v)) of
            Inl e \<Rightarrow> (Inl e, v\<lparr>cache := c, calls := calls v @ [call]\<rparr>)
          | Inr x \<Rightarrow> (Inr (Content (rendered (safeStringify (wrap x)))),
                       v\<lparr>cache := cache_set t key (wrap x) ttl c, calls := calls v @ [call]\<rparr>))"
      using cached_miss [OF st, of t' call respond wrap ttl] unfolding P_def by blast
    show ?thesis
      using c by (intro exI [of _ c])
        (simp add: H_def try_catch_def return_io_def split: sum.splits)
  qed
  have stored: "fresh t key (cache_set t1 key (wrap x) ttl c)" if "t \<le> t1 + ttl" for t x c
    using that wrap by (simp add: fresh_def cache_set_def)
  show ?thesis
  proof (cases "fresh t1 key (cache w)")
    case True
    obtain e where e: "cache w key = Some e"
        "H t1 w = (Inr (Content (rendered (safeStringify (val e)))), w)"
      using hit [OF True] by blast
    have "H t2 w = H t1 w" if "fresh t2 key (cache w)"
      using hit [OF that] e by auto
    with True e show ?thesis by simp
  next
    case False
    obtain c where c: "\<not> fresh t2 key c" "c key = None \<or> c key = cache w key"
      "\<forall>other. other \<noteq> key \<longrightarrow> c other = cache w other"
      "case respond (length (calls w)) of
          Inl e \<Rightarrow> H t1 w = (Inr (k e), w\<lparr>cache := c, calls := calls w @ [call]\<rparr>)
        | Inr x \<Rightarrow> H t1 w = (Inr (Content (rendered (safeStringify (wrap x)))),
                       w\<lparr>cache := cache_set t1 key (wrap x) ttl c, calls := calls w @ [call]\<rparr>)"
      using miss [OF False, of t2] by blast
    show ?thesis
    proof (cases "respond (length (calls w))")
      case (Inl e)
      with c False show ?thesis by simp
    next
      case (Inr x)
      with c have H1: "H t1 w = (Inr (Content (rendered (safeStringify (wrap x)))),
                       w\<lparr>cache := cache_set t1 key (wrap x) ttl c, calls := calls w @ [call]\<rparr>)"
        by simp
      let ?w1 = "w\<lparr>cache := cache_set t1 key (wrap x) ttl c, calls := calls w @ [call]\<rparr>"
      have second: "H t2 ?w1 = H t1 w" if "fresh t2 key (cache ?w1)"
        using hit [OF that] H1 by (auto simp: cache_set_def)
      have entry: "cache ?w1 key = Some \<lparr>val = wrap x, expiresAt = t1 + ttl\<rparr>"
        by (simp add: cache_set_def)
      have others: "\<forall>other. other \<noteq> key \<longrightarrow> cache ?w1 other = cache w other"
        using c(3) by (simp add: cache_set_def)
      have "\<forall>t. t \<le> t1 + ttl \<longrightarrow> fresh t key (cache ?w1)"
        using stored by simp
      with False Inr H1 second entry others show ?thesis by simp
    qed
  qed
qed

text \<open>
  C3. For the cached lookups \<^verbatim>\<open>chains\<close> and \<^verbatim>\<open>token\<close>, with the key, the remote
  call and the ttl (\<^verbatim>\<open>cacheTTL\<close>) the handler uses; \<open>answer\<close> is what the remote
  call returns when issued in the state \<open>w\<close>, as the value the handler would store.
  A lookup that finds a fresh entry issues no remote call, changes nothing and returns
  the text of the cached value. A lookup that finds none (no entry, or one past its
  expiry) issues exactly that remote call and touches no other key; when the call
  succeeds, its answer is what is returned and what is stored, with expiry
  \<open>now + ttl\<close>, and the entry stays fresh up to that time; when it fails, the failure
  object is returned and nothing is stored. Whenever the entry a first lookup leaves
  behind is still fresh at a second lookup, the second returns what the first returned
  and issues no call, so the two issue at most one call together.
\<close>

theorem cached_lookup_ttl:
  assumes "tool = Chains \<and> key = cache_key ChainList \<and> call = GetChains
       \<and> answer = map_sum (\<lambda>e. e) JArray (getChains sdk (length (calls w)))
     \<or> tool = Token chain token \<and> key = cache_key (TokenOfChain chain token)
       \<and> call = GetToken chain token
       \<and> answer = map_sum (\<lambda>e. e) JObject (getToken sdk (length (calls w)) chain token)"
  shows "(fresh t1 key (cache w) \<longrightarrow>
          (\<exists>e. cache w key = Some e
             \<and> handler sdk t1 tool w = (Inr (Content (rendered (safeStringify (val e)))), w)))
    \<and> (\<not> fresh t1 key (cache w) \<longrightarrow>
          calls (snd (handler sdk t1 tool w)) = calls w @ [call]
          \<and> (\<forall>other. other \<noteq> key \<longrightarrow> cache (snd (handler sdk t1 tool w)) other = cache w other)
          \<and> (case answer of
                Inl e \<Rightarrow> fst (handler sdk t1 tool w) = Inr (catch_block tool e)
                  \<and> (cache (snd (handler sdk t1 tool w)) key = None
                       \<or> cache (snd (handler sdk t1 tool w)) key = cache w key)
              | Inr v \<Rightarrow> fst (handler sdk t1 tool w) = Inr (Content (rendered (safeStringify v)))
                  \<and> cache (snd (handler sdk t1 tool w)) key
                      = Some \<lparr>val = v, expiresAt = t1 + cacheTTL\<rparr>
                  \<and> (\<forall>t. t \<le> t1 + cacheTTL \<longrightarrow> fresh t key (cache (snd (handler sdk t1 tool w))))))
    \<and> (fresh t2 key (cache (snd (handler sdk t1 tool w))) \<longrightarrow>
          handler sdk t2 tool (snd (handler sdk t1 tool w)) = handler sdk t1 tool w
          \<and> length (calls (snd (handler sdk t2 tool (snd (handler sdk t1 tool w)))))
              \<le> Suc (length (calls w)))"
  using assms
proof (elim disjE conjE)
  assume tool: "tool = Chains" and key: "key = cache_key ChainList" and call: "call = GetChains"
    and answer: "answer = map_sum (\<lambda>e. e) JArray (getChains sdk (length (calls w)))"
  have arrays: "truthy (JArray x)" for x
    by simp
  note pattern = cached_pattern [where wrap = JArray and key = "cache_key ChainList"
      and call = GetChains and respond = "getChains sdk" and ttl = cacheTTL
      and k = "catch_block Chains" and ?t1.0 = t1 and w = w and ?t2.0 = t2, OF arrays]
  show ?thesis
  proof (cases "getChains sdk (length (calls w))")
    case (Inl e)
    show ?thesis
      unfolding tool key call answer handler_def try_block.simps
      using pattern by (simp only: Inl sum.case map_sum.simps)
  next
    case (Inr x)
    show ?thesis
      unfolding tool key call answer handler_def try_block.simps
      using pattern by (simp only: Inr sum.case map_sum.simps)
  qed
next
  assume tool: "tool = Token chain token" and key: "key = cache_key (TokenOfChain chain token)"
    and call: "call = GetToken chain token"
    and answer: "answer = map_sum (\<lambda>e. e) JObject (getToken sdk (length (calls w)) chain token)"
  have objects: "truthy (JObject x)" for x
    by simp
  note pattern = cached_pattern [where wrap = JObject and key = "cache_key (TokenOfChain chain token)"
      and call = "GetToken chain token" and respond = "\<lambda>k. getToken sdk k chain token"
      and ttl = cacheTTL and k = "catch_block (Token chain token)"
      and ?t1.0 = t1 and w = w and ?t2.0 = t2, OF objects]
  show ?thesis
  proof (cases "getToken sdk (length (calls w)) chain token")
    case (Inl e)
    show ?thesis
      unfolding tool key call answer handler_def try_block.simps
      using pattern by (simp only: Inl sum.case map_sum.simps)
  next
    case (Inr x)
    show ?thesis
      unfolding tool key call answer handler_def try_block.simps
      using pattern by (simp only: Inr sum.case map_sum.simps)
  qed
qed

lemma sample_chains_answer:
  "Inr (JArray [JObject [(''id'', JNumber ''1''), (''key'', JString ''eth'')]])
     = map_sum (\<lambda>e. e) JArray (getChains sample_sdk k)"
  by (simp add: sample_sdk_def)

theorem cached_lookup_ttl_witness:
  "\<not> fresh 1000 (cache_key ChainList) (cache startup)
   \<and> calls (snd (handler sample_sdk 1000 Chains startup)) = [GetChains, GetChains]
   \<and> fst (handler sample_sdk 1000 Chains startup)
       = Inr (Content (rendered (safeStringify
           (JArray [JObject [(''id'', JNumber ''1''), (''key'', JString ''eth'')]]))))
   \<and> cache (snd (handler sample_sdk 1000 Chains startup)) (cache_key ChainList)
       = Some \<lparr>val = JArray [JObject [(''id'', JNumber ''1''), (''key'', JString ''eth'')]],
               expiresAt = 1000 + cacheTTL\<rparr>
   \<and> fresh (1000 + cacheTTL) (cache_key ChainList) (cache (snd (handler sample_sdk 1000 Chains startup)))
   \<and> handler sample_sdk (1000 + cacheTTL) Chains (snd (handler sample_sdk 1000 Chains startup))
       = handler sample_sdk 1000 Chains startup
   \<and> \<not> fresh (1001 + cacheTTL) (cache_key ChainList)
         (cache (snd (handler sample_sdk 1000 Chains startup)))
   \<and> calls (snd (handler sample_sdk (1001 + cacheTTL) Chains
         (snd (handler sample_sdk 1000 Chains startup)))) = [GetChains, GetChains, GetChains]
   \<and> cache (snd (handler sample_sdk (1001 + cacheTTL) Chains
         (snd (handler sample_sdk 1000 Chains startup)))) (cache_key ChainList)
       = Some \<lparr>val = JArray [JObject [(''id'', JNumber ''1''), (''key'', JString ''eth'')]],
               expiresAt = 1001 + cacheTTL + cacheTTL\<rparr>"
proof -
  let ?v = "JArray [JObject [(''id'', JNumber ''1''), (''key'', JString ''eth'')]]"
  let ?key = "cache_key ChainList"
  let ?w1 = "snd (handler sample_sdk 1000 Chains startup)"
  let ?w2 = "snd (handler sample_sdk (1001 + cacheTTL) Chains ?w1)"
  have pre: "Chains = Chains \<and> ?key = cache_key ChainList \<and> GetChains = GetChains
       \<and> Inr ?v = map_sum (\<lambda>e. e) JArray (getChains sample_sdk (length (calls v)))
     \<or> Chains = Token chain token \<and> ?key = cache_key (TokenOfChain chain token)
       \<and> GetChains = GetToken chain token
       \<and> Inr ?v = map_sum (\<lambda>e. e) JObject (getToken sample_sdk (length (calls v)) chain token)"
    for v chain token
    by (intro disjI1 conjI refl sample_chains_answer)
  note at_start = cached_lookup_ttl [OF pre, where w = startup and ?t1.0 = 1000
      and ?t2.0 = "1000 + cacheTTL"]
  note later = cached_lookup_ttl [OF pre, where w = ?w1 and ?t1.0 = "1001 + cacheTTL"]
  have stale: "\<not> fresh 1000 ?key (cache startup)"
    by (simp add: fresh_def startup_def)
  have start: "calls startup = [GetChains]"
    by (simp add: startup_def)
  note miss = at_start [THEN conjunct2, THEN conjunct1, THEN mp, OF stale, unfolded sum.case]
  note called = miss [THEN conjunct1, unfolded start append.simps]
  note returned = miss [THEN conjunct2, THEN conjunct2, THEN conjunct1]
  note stored = miss [THEN conjunct2, THEN conjunct2, THEN conjunct2, THEN conjunct1]
  note kept = miss [THEN conjunct2, THEN conjunct2, THEN conjunct2, THEN conjunct2]
  have fresh1: "fresh (1000 + cacheTTL) ?key (cache ?w1)"
    using kept [rule_format, OF order_refl] .
  note same = at_start [THEN conjunct2, THEN conjunct2, THEN mp, OF fresh1, THEN conjunct1]
  have expired: "\<not> fresh (1001 + cacheTTL) ?key (cache ?w1)"
    using stored by (simp add: fresh_def del: cache_key.simps)
  note again = later [THEN conjunct2, THEN conjunct1, THEN mp, OF expired, unfolded sum.case]
  note called_again = again [THEN conjunct1, unfolded called append.simps]
  note stored_again = again [THEN conjunct2, THEN conjunct2, THEN conjunct2, THEN conjunct1]
  show ?thesis
    by (simp only: stale called returned stored fresh1 same expired called_again stored_again
        simp_thms)
qed

subsection \<open>What every run keeps true of the cache\<close>

lemma decimal_no_letters: "CHR ''a'' \<notin> set (decimal k) \<and> CHR ''u'' \<notin> set (decimal k)"
proof -
  have "CHR ''a'' \<notin> set ''0123456789''" and "CHR ''u'' \<notin> set ''0123456789''"
    by simp_all
  then show ?thesis
    using decimal_digits [of k] by (meson subsetD)
qed

lemma decimal_not_all: "decimal k \<noteq> ''all''" and decimal_not_undefined: "decimal k \<noteq> ''undefined''"
proof -
  show "decimal k \<noteq> ''all''"
  proof
    assume "decimal k = ''all''"
    then have "CHR ''a'' \<in> set (decimal k)" by simp
    then show False using decimal_no_letters by simp
  qed
  show "decimal k \<noteq> ''undefined''"
  proof
    assume "decimal k = ''undefined''"
    then have "CHR ''u'' \<in> set (decimal k)" by simp
    then show False using decimal_no_letters by simp
  qed
qed

lemma tokens_of_decimal: "tokens_of tokens key = Some ts \<Longrightarrow> \<exists>k. key = decimal k"
proof -
  assume "tokens_of tokens key = Some ts"
  then have "(key, ts) \<in> set (map (\<lambda>(chainId, ts). (decimal chainId, ts)) tokens)"
    unfolding tokens_of_def by (rule map_of_SomeD)
  then show ?thesis by auto
qed

lemma bounded_delete: "token_lists_bounded c \<Longrightarrow> token_lists_bounded (c(key := None))"
  by (simp add: token_lists_bounded_def)

lemma bounded_set:
  assumes "token_lists_bounded c" and "key \<noteq> ''tokens-all''"
    and "take 7 key = ''tokens-'' \<longrightarrow> (\<exists>ts. v = JArray ts \<and> length ts \<le> 25)"
  shows "token_lists_bounded (cache_set now key v ttl c)"
  using assms by (simp add: token_lists_bounded_def cache_set_def)

lemma keeps_return: "keeps_bounded (return_io a)"
  by (simp add: keeps_bounded_def return_io_def)

lemma keeps_throw: "keeps_bounded (throw e)"
  by (simp add: keeps_bounded_def throw_def)

lemma keeps_lift: "keeps_bounded (lift r)"
  by (simp add: keeps_bounded_def lift_def)

lemma keeps_remote: "keeps_bounded (remote c respond)"
  by (simp add: keeps_bounded_def remote_def)

lemma keeps_get: "keeps_bounded (get_io now key)"
  by (simp add: keeps_bounded_def get_io_def cache_get_def bounded_delete split: option.splits)

lemma keeps_set:
  assumes "key \<noteq> ''tokens-all''"
    and "take 7 key = ''tokens-'' \<longrightarrow> (\<exists>ts. v = JArray ts \<and> length ts \<le> 25)"
  shows "keeps_bounded (set_io now key v ttl)"
  using assms by (simp add: keeps_bounded_def set_io_def bounded_set)

lemma keeps_bind:
  assumes "keeps_bounded m" and "\<And>a. keeps_bounded (f a)"
  shows "keeps_bounded (bind_io m f)"
proof -
  have "token_lists_bounded (cache (snd (bind_io m f w)))" if w: "token_lists_bounded (cache w)" for w
  proof (cases "m w")
    case (Pair r w')
    then have 1: "token_lists_bounded (cache w')"
      using assms(1) w unfolding keeps_bounded_def by (metis snd_conv)
    show ?thesis
    proof (cases r)
      case (Inl e)
      with Pair 1 show ?thesis by (simp add: bind_io_def)
    next
      case (Inr a)
      with Pair 1 assms(2) [of a] show ?thesis by (simp add: bind_io_def keeps_bounded_def)
    qed
  qed
  then show ?thesis by (simp add: keeps_bounded_def)
qed

lemma keeps_unless_cached: "keeps_bounded block \<Longrightarrow> keeps_bounded (unless_cached cached block)"
  by (simp add: unless_cached_def keeps_return split: option.splits)

lemma keeps_text_content: "keeps_bounded (text_content v)"
  unfolding text_content_def by (intro keeps_bind keeps_lift keeps_return)

lemma keeps_cache_blind: "cache_blind m \<Longrightarrow> keeps_bounded m"
  by (simp add: keeps_bounded_def cache_blind_unchanged)

lemma chains_key_plain:
  "cache_key ChainList \<noteq> ''tokens-all'' \<and> take 7 (cache_key ChainList) \<noteq> ''tokens-''"
  by simp

lemma token_key_plain:
  "cache_key (TokenOfChain chain token) \<noteq> ''tokens-all''
   \<and> take 7 (cache_key (TokenOfChain chain token)) \<noteq> ''tokens-''"
  by simp

lemma keeps_chains: "keeps_bounded (try_block sdk now Chains)"
  unfolding try_block.simps
  by (intro keeps_bind keeps_get keeps_unless_cached keeps_remote keeps_set keeps_return
      keeps_text_content) (simp_all only: chains_key_plain simp_thms)

lemma keeps_token: "keeps_bounded (try_block sdk now (Token chain token))"
  unfolding try_block.simps
  by (intro keeps_bind keeps_get keeps_unless_cached keeps_remote keeps_set keeps_return
      keeps_text_content) (simp_all only: token_key_plain simp_thms)

lemma keeps_slice_store:
  "keeps_bounded (bind_io (slice_0_25 (property_name chain) (tokens_of tokens (property_name chain)))
     (\<lambda>lessTokens.
        bind_io (set_io now (cache_key (TokensOfChain chain)) (JArray lessTokens) ttl)
          (\<lambda>_. return_io (JArray lessTokens))))"
proof (cases "tokens_of tokens (property_name chain)")
  case None
  then show ?thesis
    by (simp add: keeps_bounded_def bind_io_def throw_def)
next
  case (Some ts)
  then obtain k where k: "property_name chain = decimal k"
    using tokens_of_decimal by blast
  then obtain c where c: "chain = Some c" "c = decimal k"
    using decimal_not_undefined [of k] by (cases chain) auto
  have "c \<noteq> []" and "c \<noteq> ''all''"
    using c decimal_nonempty [of k] decimal_not_all [of k] by simp_all
  then have key: "cache_key (TokensOfChain chain) \<noteq> ''tokens-all''"
    using c by simp
  have "keeps_bounded (bind_io (set_io now (cache_key (TokensOfChain chain)) (JArray (take 25 ts)) ttl)
          (\<lambda>_. return_io (JArray (take 25 ts))))"
    by (intro keeps_bind keeps_set keeps_return key) simp
  with Some show ?thesis by (simp add: bind_return)
qed

lemma keeps_tokens_one_chain: "keeps_bounded (try_block sdk now (TokensOneChain chain))"
  unfolding try_block.simps
  by (intro keeps_bind keeps_get keeps_unless_cached keeps_remote keeps_slice_store
      keeps_text_content)

lemma keeps_try_block: "keeps_bounded (try_block sdk now tool)"
proof -
  consider "tool = Chains" | chain where "tool = TokensOneChain chain"
    | chain token where "tool = Token chain token"
    | "tool \<noteq> Chains" "\<forall>chain. tool \<noteq> TokensOneChain chain" "\<forall>chain token. tool \<noteq> Token chain token"
    by blast
  then show ?thesis
  proof cases
    case 4
    then show ?thesis by (intro keeps_cache_blind cache_blind_try_block)
  qed (simp_all only: keeps_chains keeps_tokens_one_chain keeps_token)
qed

lemma handler_keeps:
  "token_lists_bounded (cache w) \<Longrightarrow> token_lists_bounded (cache (snd (handler sdk now tool w)))"
  using keeps_try_block [of sdk now tool] unfolding keeps_bounded_def handler_world by blast

lemma run_keeps:
  "token_lists_bounded (cache w) \<Longrightarrow> token_lists_bounded (cache (run sdk history w))"
  by (induction sdk history w rule: run.induct) (simp_all add: handler_keeps)

lemma run_bounded: "token_lists_bounded (cache (run sdk history startup))"
  by (rule run_keeps) (simp add: startup_def token_lists_bounded_def)

subsection \<open>Where cached token lists come from\<close>

lemma upstream_later:
  assumes "tokens_from_upstream sdk w" and "calls w' = calls w @ cs"
    and "\<And>key. take 7 key = ''tokens-'' \<Longrightarrow> cache w' key = None \<or> cache w' key = cache w key"
  shows "tokens_from_upstream sdk w'"
  unfolding tokens_from_upstream_def
proof (intro allI impI, elim conjE)
  fix key e
  assume e: "cache w' key = Some e" and key: "take 7 key = ''tokens-''"
  then have "cache w key = Some e"
    using assms(3) [OF key] by auto
  then obtain k chain tokens all where k: "k < length (calls w)"
      "calls w ! k = GetTokens (chains_of chain) True"
      "key = cache_key (TokensOfChain chain)"
      "getTokens sdk k (chains_of chain) True = Inr tokens"
      "tokens_of tokens (property_name chain) = Some all" "val e = JArray (take 25 all)"
    using assms(1) key unfolding tokens_from_upstream_def by blast
  have "k < length (calls w')" and "calls w' ! k = GetTokens (chains_of chain) True"
    using k(1,2) assms(2) by (simp_all add: nth_append)
  with k show "\<exists>k chain tokens all. k < length (calls w')
           \<and> calls w' ! k = GetTokens (chains_of chain) True
           \<and> key = cache_key (TokensOfChain chain)
           \<and> getTokens sdk k (chains_of chain) True = Inr tokens
           \<and> tokens_of tokens (property_name chain) = Some all
           \<and> val e = JArray (take 25 all)"
    by blast
qed

lemma cached_other_keys:
  fixes wrap :: "'a \<Rightarrow> jsval"
  assumes "other \<noteq> key"
  shows "cache (snd (bind_io (get_io now key)
       (\<lambda>cached. bind_io
          (unless_cached cached
             (bind_io (remote call respond)
                (\<lambda>x. bind_io (set_io now key (wrap x) ttl) (\<lambda>_. return_io (wrap x)))))
          text_content) w)) other = cache w other"
proof (cases "fresh now key (cache w)")
  case True
  show ?thesis
    using cached_hit [OF True, where block = "bind_io (remote call respond)
                (\<lambda>x. bind_io (set_io now key (wrap x) ttl) (\<lambda>_. return_io (wrap x)))"]
    by auto
next
  case False
  obtain c where c: "\<forall>other. other \<noteq> key \<longrightarrow> c other = cache w other"
     "bind_io (get_io now key)
       (\<lambda>cached. bind_io
          (unless_cached cached
             (bind_io (remote call respond)
                (\<lambda>x. bind_io (set_io now key (wrap x) ttl) (\<lambda>_. return_io (wrap x)))))
          text_content) w
       = (case respond (length (calls w)) of
            Inl e \<Rightarrow> (Inl e, w\<lparr>cache := c, calls := calls w @ [call]\<rparr>)
          | Inr x \<Rightarrow> (Inr (Content (rendered (safeStringify (wrap x)))),
                       w\<lparr>cache := cache_set now key (wrap x) ttl c, calls := calls w @ [call]\<rparr>))"
    using cached_miss [OF False, of now call respond wrap ttl] by blast
  show ?thesis
    unfolding c(2) using c(1) assms
    by (cases "respond (length (calls w))") (simp_all add: cache_set_def)
qed

lemma tokens_one_chain_state:
  assumes "\<not> fresh now (cache_key (TokensOfChain chain)) (cache w)"
  shows "\<exists>c. (c (cache_key (TokensOfChain chain)) = None
            \<or> c (cache_key (TokensOfChain chain)) = cache w (cache_key (TokensOfChain chain)))
       \<and> (\<forall>other. other \<noteq> cache_key (TokensOfChain chain) \<longrightarrow> c other = cache w other)
       \<and> snd (try_block sdk now (TokensOneChain chain) w) =
     (case getTokens sdk (length (calls w)) (chains_of chain) True of
        Inl e \<Rightarrow> w\<lparr>cache := c, calls := calls w @ [GetTokens (chains_of chain) True]\<rparr>
      | Inr tokens \<Rightarrow>
          (case tokens_of tokens (property_name chain) of
             None \<Rightarrow> w\<lparr>cache := c, calls := calls w @ [GetTokens (chains_of chain) True]\<rparr>
           | Some all \<Rightarrow>
               w\<lparr>cache := cache_set now (cache_key (TokensOfChain chain)) (JArray (take 25 all))
                            (60 * 5) c,
                 calls := calls w @ [GetTokens (chains_of chain) True]\<rparr>))"
proof -
  obtain cached c where g:
      "get_io now (cache_key (TokensOfChain chain)) w = (Inr cached, w\<lparr>cache := c\<rparr>)"
      "case cached of None \<Rightarrow> True | Some v \<Rightarrow> \<not> truthy v"
      "c (cache_key (TokensOfChain chain)) = None
         \<or> c (cache_key (TokensOfChain chain)) = cache w (cache_key (TokensOfChain chain))"
      "\<forall>other. other \<noteq> cache_key (TokensOfChain chain) \<longrightarrow> c other = cache w other"
    using get_io_stale [OF assms, of now] by blast
  have "unless_cached cached block = block" for block :: "jsval io"
    using g(2) by (cases cached) (simp_all add: unless_cached_def)
  then have "snd (try_block sdk now (TokensOneChain chain) w) =
     (case getTokens sdk (length (calls w)) (chains_of chain) True of
        Inl e \<Rightarrow> w\<lparr>cache := c, calls := calls w @ [GetTokens (chains_of chain) True]\<rparr>
      | Inr tokens \<Rightarrow>
          (case tokens_of tokens (property_name chain) of
             None \<Rightarrow> w\<lparr>cache := c, calls := calls w @ [GetTokens (chains_of chain) True]\<rparr>
           | Some all \<Rightarrow>
               w\<lparr>cache := cache_set now (cache_key (TokensOfChain chain)) (JArray (take 25 all))
                            (60 * 5) c,
                 calls := calls w @ [GetTokens (chains_of chain) True]\<rparr>))"
    using g(1)
    by (simp add: bind_io_def remote_def set_io_def return_io_def throw_def text_content_result
        del: cache_key.simps split: sum.splits option.splits)
  with g(3,4) show ?thesis by blast
qed

lemma upstream_tokens_one_chain:
  assumes "tokens_from_upstream sdk w"
  shows "tokens_from_upstream sdk (snd (try_block sdk now (TokensOneChain chain) w))"
proof (cases "fresh now (cache_key (TokensOfChain chain)) (cache w)")
  case True
  then have "snd (try_block sdk now (TokensOneChain chain) w) = w"
    unfolding try_block.simps using cached_hit [OF True] by (metis snd_conv)
  with assms show ?thesis by simp
next
  case False
  let ?key = "cache_key (TokensOfChain chain)"
  let ?call = "GetTokens (chains_of chain) True"
  obtain c where c: "c ?key = None \<or> c ?key = cache w ?key"
      "\<forall>other. other \<noteq> ?key \<longrightarrow> c other = cache w other"
      "snd (try_block sdk now (TokensOneChain chain) w) =
     (case getTokens sdk (length (calls w)) (chains_of chain) True of
        Inl e \<Rightarrow> w\<lparr>cache := c, calls := calls w @ [?call]\<rparr>
      | Inr tokens \<Rightarrow>
          (case tokens_of tokens (property_name chain) of
             None \<Rightarrow> w\<lparr>cache := c, calls := calls w @ [?call]\<rparr>
           | Some all \<Rightarrow>
               w\<lparr>cache := cache_set now ?key (JArray (take 25 all)) (60 * 5) c,
                 calls := calls w @ [?call]\<rparr>))"
    using tokens_one_chain_state [OF False] by blast
  have plain: "tokens_from_upstream sdk (w\<lparr>cache := c, calls := calls w @ [?call]\<rparr>)"
  proof (rule upstream_later [OF assms])
    show "calls (w\<lparr>cache := c, calls := calls w @ [?call]\<rparr>) = calls w @ [?call]"
      by simp
    show "cache (w\<lparr>cache := c, calls := calls w @ [?call]\<rparr>) key = None
        \<or> cache (w\<lparr>cache := c, calls := calls w @ [?call]\<rparr>) key = cache w key" for key
      using c(1,2) by (cases "key = ?key") simp_all
  qed
  show ?thesis
  proof (cases "getTokens sdk (length (calls w)) (chains_of chain) True")
    case (Inl e)
    with c(3) plain show ?thesis by simp
  next
    case (Inr tokens)
    show ?thesis
    proof (cases "tokens_of tokens (property_name chain)")
      case None
      with Inr c(3) plain show ?thesis by simp
    next
      case (Some all)
      let ?w' = "w\<lparr>cache := cache_set now ?key (JArray (take 25 all)) (60 * 5) c,
                 calls := calls w @ [?call]\<rparr>"
      have w': "snd (try_block sdk now (TokensOneChain chain) w) = ?w'"
        using c(3) Inr Some by simp
      have "tokens_from_upstream sdk ?w'"
        unfolding tokens_from_upstream_def
      proof (intro allI impI, elim conjE)
        fix key e
        assume e: "cache ?w' key = Some e" and key: "take 7 key = ''tokens-''"
        show "\<exists>k chain tokens all. k < length (calls ?w')
           \<and> calls ?w' ! k = GetTokens (chains_of chain) True
           \<and> key = cache_key (TokensOfChain chain)
           \<and> getTokens sdk k (chains_of chain) True = Inr tokens
           \<and> tokens_of tokens (property_name chain) = Some all
           \<and> val e = JArray (take 25 all)"
        proof (cases "key = ?key")
          case True
          then have "val e = JArray (take 25 all)"
            using e by (auto simp add: cache_set_def simp del: cache_key.simps)
          moreover have "length (calls w) < length (calls ?w')"
            and "calls ?w' ! length (calls w) = ?call"
            by simp_all
          ultimately show ?thesis
            using True Inr Some by blast
        next
          case False
          then have "cache (w\<lparr>cache := c, calls := calls w @ [?call]\<rparr>) key = Some e"
            using e by (simp add: cache_set_def del: cache_key.simps)
          then obtain k chain' tokens' all' where
              "k < length (calls (w\<lparr>cache := c, calls := calls w @ [?call]\<rparr>))"
              "calls (w\<lparr>cache := c, calls := calls w @ [?call]\<rparr>) ! k
                 = GetTokens (chains_of chain') True"
              "key = cache_key (TokensOfChain chain')"
              "getTokens sdk k (chains_of chain') True = Inr tokens'"
              "tokens_of tokens' (property_name chain') = Some all'"
              "val e = JArray (take 25 all')"
            using plain key unfolding tokens_from_upstream_def by blast
          then show ?thesis by (intro exI [of _ k] exI [of _ chain'] exI [of _ tokens']
              exI [of _ all']) simp
        qed
      qed
      with w' show ?thesis by simp
    qed
  qed
qed

lemma upstream_try_block:
  assumes "tokens_from_upstream sdk w"
  shows "tokens_from_upstream sdk (snd (try_block sdk now tool w))"
proof -
  obtain cs where cs: "calls (snd (try_block sdk now tool w)) = calls w @ cs"
    using appends_try_block [of sdk now tool] unfolding appends_def by blast
  consider "tool = Chains" | chain where "tool = TokensOneChain chain"
    | chain token where "tool = Token chain token"
    | "tool \<noteq> Chains" "\<forall>chain. tool \<noteq> TokensOneChain chain" "\<forall>chain token. tool \<noteq> Token chain token"
    by blast
  then show ?thesis
  proof cases
    case 1
    have "cache (snd (try_block sdk now tool w)) key = cache w key"
      if "take 7 key = ''tokens-''" for key
    proof -
      have "key \<noteq> cache_key ChainList"
        using that chains_key_plain by blast
      then show ?thesis
        unfolding 1 try_block.simps by (rule cached_other_keys)
    qed
    then show ?thesis
      using upstream_later [OF assms cs] by blast
  next
    case 2
    then show ?thesis using upstream_tokens_one_chain [OF assms] by simp
  next
    case 3
    have "cache (snd (try_block sdk now tool w)) key = cache w key"
      if "take 7 key = ''tokens-''" for key
    proof -
      have "key \<noteq> cache_key (TokenOfChain chain token)"
        using that token_key_plain by blast
      then show ?thesis
        unfolding 3 try_block.simps by (rule cached_other_keys)
    qed
    then show ?thesis
      using upstream_later [OF assms cs] by blast
  next
    case 4
    then have "cache (snd (try_block sdk now tool w)) = cache w"
      by (intro cache_blind_unchanged cache_blind_try_block)
    then show ?thesis
      using upstream_later [OF assms cs] by simp
  qed
qed

lemma run_upstream_from:
  "tokens_from_upstream sdk w \<Longrightarrow> tokens_from_upstream sdk (run sdk history w)"
  by (induction sdk history w rule: run.induct)
     (simp_all add: handler_world upstream_try_block del: try_block.simps)

lemma run_upstream: "tokens_from_upstream sdk (run sdk history startup)"
  by (rule run_upstream_from) (simp add: startup_def tokens_from_upstream_def)

lemma same_chain:
  assumes "cache_key (TokensOfChain chain') = cache_key (TokensOfChain chain)"
    and "tokens_of tokens (property_name chain') = Some all"
  shows "chain' = chain"
proof -
  obtain j where j: "property_name chain' = decimal j"
    using assms(2) tokens_of_decimal by blast
  then obtain c' where c': "chain' = Some c'" "c' = decimal j"
    using decimal_not_undefined [of j] by (cases chain') auto
  then have "or_all chain' = decimal j"
    using decimal_nonempty [of j] by simp
  then have eq: "or_all chain = decimal j"
    using assms(1) by simp
  show ?thesis
  proof (cases chain)
    case None
    with eq show ?thesis using decimal_not_all [of j] by simp
  next
    case (Some c)
    with eq c' show ?thesis
      using decimal_not_all [of j] by (cases "c = []") simp_all
  qed
qed

subsection \<open>Token lists\<close>

lemma tokens_of_undefined: "tokens_of tokens ''undefined'' = None"
proof (cases "tokens_of tokens ''undefined''")
  case (Some ts)
  then obtain k where "''undefined'' = decimal k"
    using tokens_of_decimal by blast
  then show ?thesis using decimal_not_undefined [of k] by simp
qed simp

lemma tokens_one_chain_miss:
  assumes "\<not> fresh now (cache_key (TokensOfChain chain)) (cache w)"
  shows "fst (try_block sdk now (TokensOneChain chain) w) =
     (case getTokens sdk (length (calls w)) (chains_of chain) True of
        Inl e \<Rightarrow> Inl e
      | Inr tokens \<Rightarrow>
          (case tokens_of tokens (property_name chain) of
             None \<Rightarrow> Inl (TypeError (if property_name chain \<in> set objectPrototype
                                       then ''tokens.tokens[chain].slice is not a function''
                                       else ''Cannot read properties of undefined (reading 'slice')''))
           | Some all \<Rightarrow> Inr (Content (rendered (safeStringify (JArray (take 25 all)))))))"
proof -
  obtain cached c where g:
      "get_io now (cache_key (TokensOfChain chain)) w = (Inr cached, w\<lparr>cache := c\<rparr>)"
      "case cached of None \<Rightarrow> True | Some v \<Rightarrow> \<not> truthy v"
    using get_io_stale [OF assms, of now] by blast
  have "unless_cached cached block = block" for block :: "jsval io"
    using g(2) by (cases cached) (simp_all add: unless_cached_def)
  then show ?thesis
    using g(1)
    by (simp add: bind_io_def remote_def set_io_def return_io_def throw_def text_content_result
        split: sum.splits option.splits)
qed

text \<open>
  C9. In any state a run of the server reaches, when the \<^verbatim>\<open>try\<close> block of
  tokens-one-chain returns, some \<^verbatim>\<open>getTokens\<close> call for that chain was answered
  with a list for it, and the text returned is that of the first 25 tokens of that
  list. When the lookup uses a cached entry, that call is an earlier one of the log and
  the entry holds those first 25 tokens; otherwise it is the call this invocation adds
  to the log, and those first 25 tokens are stored under the key of the chain for five
  minutes. When the \<^verbatim>\<open>try\<close> block of tokens-multiple-chains returns, the text is
  that of the remote answer with the list of every chain cut to its first 25 tokens.
\<close>

theorem token_lists_at_most_25:
  assumes "w = run sdk history startup"
  shows "(fst (try_block sdk now (TokensOneChain chain) w) = Inr envelope \<longrightarrow>
            (\<exists>k tokens all. getTokens sdk k (chains_of chain) True = Inr tokens
               \<and> tokens_of tokens (property_name chain) = Some all
               \<and> envelope = Content (rendered (safeStringify (JArray (take 25 all))))
               \<and> length (take 25 all) \<le> 25
               \<and> (if fresh now (cache_key (TokensOfChain chain)) (cache w)
                  then k < length (calls w) \<and> calls w ! k = GetTokens (chains_of chain) True
                     \<and> (\<exists>e. cache w (cache_key (TokensOfChain chain)) = Some e
                            \<and> val e = JArray (take 25 all))
                     \<and> snd (try_block sdk now (TokensOneChain chain) w) = w
                  else k = length (calls w)
                     \<and> calls (snd (try_block sdk now (TokensOneChain chain) w))
                         = calls w @ [GetTokens (chains_of chain) True]
                     \<and> cache (snd (try_block sdk now (TokensOneChain chain) w))
                           (cache_key (TokensOfChain chain))
                         = Some \<lparr>val = JArray (take 25 all), expiresAt = now + 60 * 5\<rparr>)))
    \<and> (fst (try_block sdk now (TokensMultipleChains chainKeys) w) = Inr envelope' \<longrightarrow>
            (\<exists>tokens. getTokens sdk (length (calls w)) chainKeys True = Inr tokens
               \<and> envelope' = Content (rendered (safeStringify
                    (tokens_json (map (\<lambda>(chainId, ts). (chainId, take 25 ts)) tokens))))))"
proof -
  let ?key = "cache_key (TokensOfChain chain)"
  let ?w' = "snd (try_block sdk now (TokensOneChain chain) w)"
  have upstream: "tokens_from_upstream sdk w"
    unfolding assms by (rule run_upstream)
  have one: "\<exists>k tokens all. getTokens sdk k (chains_of chain) True = Inr tokens
               \<and> tokens_of tokens (property_name chain) = Some all
               \<and> envelope = Content (rendered (safeStringify (JArray (take 25 all))))
               \<and> length (take 25 all) \<le> 25
               \<and> (if fresh now ?key (cache w)
                  then k < length (calls w) \<and> calls w ! k = GetTokens (chains_of chain) True
                     \<and> (\<exists>e. cache w ?key = Some e \<and> val e = JArray (take 25 all))
                     \<and> ?w' = w
                  else k = length (calls w)
                     \<and> calls ?w' = calls w @ [GetTokens (chains_of chain) True]
                     \<and> cache ?w' ?key
                         = Some \<lparr>val = JArray (take 25 all), expiresAt = now + 60 * 5\<rparr>)"
    if ok: "fst (try_block sdk now (TokensOneChain chain) w) = Inr envelope"
  proof (cases "fresh now ?key (cache w)")
    case True
    obtain e where e: "cache w ?key = Some e"
        "try_block sdk now (TokensOneChain chain) w
           = (Inr (Content (rendered (safeStringify (val e)))), w)"
      unfolding try_block.simps using cached_hit [OF True] by blast
    have "take 7 ?key = ''tokens-''"
      by simp
    with e(1) upstream obtain k chain' tokens all where k: "k < length (calls w)"
        "calls w ! k = GetTokens (chains_of chain') True"
        "?key = cache_key (TokensOfChain chain')"
        "getTokens sdk k (chains_of chain') True = Inr tokens"
        "tokens_of tokens (property_name chain') = Some all" "val e = JArray (take 25 all)"
      unfolding tokens_from_upstream_def by blast
    have same: "chain' = chain"
      using k(3) k(5) by (intro same_chain [of chain' chain tokens all]) simp_all
    have env: "envelope = Content (rendered (safeStringify (JArray (take 25 all))))"
      using ok unfolding e(2) k(6) by simp
    have state: "?w' = w"
      unfolding e(2) by simp
    show ?thesis
      using k(1,2,4,5,6) e(1) env state True unfolding same
      by (intro exI [of _ k] exI [of _ tokens] exI [of _ all]) simp
  next
    case False
    obtain c where c:
      "?w' =
     (case getTokens sdk (length (calls w)) (chains_of chain) True of
        Inl e \<Rightarrow> w\<lparr>cache := c, calls := calls w @ [GetTokens (chains_of chain) True]\<rparr>
      | Inr tokens \<Rightarrow>
          (case tokens_of tokens (property_name chain) of
             None \<Rightarrow> w\<lparr>cache := c, calls := calls w @ [GetTokens (chains_of chain) True]\<rparr>
           | Some all \<Rightarrow>
               w\<lparr>cache := cache_set now ?key (JArray (take 25 all)) (60 * 5) c,
                 calls := calls w @ [GetTokens (chains_of chain) True]\<rparr>))"
      using tokens_one_chain_state [OF False] by blast
    from ok obtain tokens all where t:
        "getTokens sdk (length (calls w)) (chains_of chain) True = Inr tokens"
        "tokens_of tokens (property_name chain) = Some all"
        "envelope = Content (rendered (safeStringify (JArray (take 25 all))))"
      unfolding tokens_one_chain_miss [OF False]
      by (auto split: sum.splits option.splits)
    have state: "?w' = w\<lparr>cache := cache_set now ?key (JArray (take 25 all)) (60 * 5) c,
                 calls := calls w @ [GetTokens (chains_of chain) True]\<rparr>"
      unfolding c by (simp add: t del: cache_key.simps)
    have "calls ?w' = calls w @ [GetTokens (chains_of chain) True]"
      and "cache ?w' ?key = Some \<lparr>val = JArray (take 25 all), expiresAt = now + 60 * 5\<rparr>"
      unfolding state by (simp_all add: cache_set_def del: cache_key.simps)
    with t False show ?thesis
      by (intro exI [of _ "length (calls w)"] exI [of _ tokens] exI [of _ all]) simp
  qed
  have many: "\<exists>tokens. getTokens sdk (length (calls w)) chainKeys True = Inr tokens
               \<and> envelope' = Content (rendered (safeStringify
                    (tokens_json (map (\<lambda>(chainId, ts). (chainId, take 25 ts)) tokens))))"
    if "fst (try_block sdk now (TokensMultipleChains chainKeys) w) = Inr envelope'"
    using that
    by (simp add: bind_io_def remote_def text_content_result split: sum.splits)
  from one many show ?thesis by blast
qed

lemma sample_tokens_state:
  "run sample_sdk [(0, TokensOneChain (Some ''1''))] startup
     = \<lparr>cache = [''tokens-1'' \<mapsto>
                   \<lparr>val = JArray (replicate 25 (JObject [(''decimals'', JNumber ''18'')])),
                    expiresAt = 300\<rparr>],
        calls = [GetChains, GetTokens (Some [''1'']) True]\<rparr>"
proof -
  have one: "decimal (Suc 0) = ''1''"
    by (simp add: decimal_small digit_def)
  show ?thesis
    by (simp add: handler_world startup_def bind_io_def get_io_def cache_get_def
        unless_cached_def remote_def sample_sdk_def tokens_of_def one set_io_def cache_set_def
        return_io_def text_content_result)
qed

lemma sample_tokens_hit:
  "fresh 5 (cache_key (TokensOfChain (Some ''1'')))
     (cache (run sample_sdk [(0, TokensOneChain (Some ''1''))] startup))"
  unfolding sample_tokens_state by (simp add: fresh_def)

lemma sample_tokens:
  "fst (try_block sample_sdk 5 (TokensOneChain (Some ''1''))
          (run sample_sdk [(0, TokensOneChain (Some ''1''))] startup))
     = Inr (Content (rendered (safeStringify
         (JArray (replicate 25 (JObject [(''decimals'', JNumber ''18'')]))))))"
proof -
  obtain e where e: "cache (run sample_sdk [(0, TokensOneChain (Some ''1''))] startup)
           (cache_key (TokensOfChain (Some ''1''))) = Some e"
      "try_block sample_sdk 5 (TokensOneChain (Some ''1''))
          (run sample_sdk [(0, TokensOneChain (Some ''1''))] startup)
           = (Inr (Content (rendered (safeStringify (val e)))),
              run sample_sdk [(0, TokensOneChain (Some ''1''))] startup)"
    unfolding try_block.simps using cached_hit [OF sample_tokens_hit] by blast
  have "val e = JArray (replicate 25 (JObject [(''decimals'', JNumber ''18'')]))"
    using e(1) unfolding sample_tokens_state by auto
  then show ?thesis
    unfolding e(2) by simp
qed

theorem token_lists_at_most_25_witness:
  "fst (try_block sample_sdk 5 (TokensOneChain (Some ''1''))
          (run sample_sdk [(0, TokensOneChain (Some ''1''))] startup))
     = Inr (Content (rendered (safeStringify
         (JArray (replicate 25 (JObject [(''decimals'', JNumber ''18'')]))))))
   \<and> fresh 5 (cache_key (TokensOfChain (Some ''1'')))
       (cache (run sample_sdk [(0, TokensOneChain (Some ''1''))] startup))
   \<and> (\<exists>k tokens all. getTokens sample_sdk k (chains_of (Some ''1'')) True = Inr tokens
         \<and> tokens_of tokens (property_name (Some ''1'')) = Some all
         \<and> Content (rendered (safeStringify
             (JArray (replicate 25 (JObject [(''decimals'', JNumber ''18'')])))))
            = Content (rendered (safeStringify (JArray (take 25 all))))
         \<and> length (take 25 all) \<le> 25
         \<and> k < length (calls (run sample_sdk [(0, TokensOneChain (Some ''1''))] startup))
         \<and> calls (run sample_sdk [(0, TokensOneChain (Some ''1''))] startup) ! k
             = GetTokens (chains_of (Some ''1'')) True
         \<and> (\<exists>e. cache (run sample_sdk [(0, TokensOneChain (Some ''1''))] startup)
                     (cache_key (TokensOfChain (Some ''1''))) = Some e
                \<and> val e = JArray (take 25 all))
         \<and> snd (try_block sample_sdk 5 (TokensOneChain (Some ''1''))
                  (run sample_sdk [(0, TokensOneChain (Some ''1''))] startup))
             = run sample_sdk [(0, TokensOneChain (Some ''1''))] startup)"
proof -
  note cached = token_lists_at_most_25 [where sdk = sample_sdk
      and history = "[(0, TokensOneChain (Some ''1''))]" and now = 5 and chain = "Some ''1''"
      and envelope = "Content (rendered (safeStringify
         (JArray (replicate 25 (JObject [(''decimals'', JNumber ''18'')])))))",
      OF refl, THEN conjunct1, THEN mp, OF sample_tokens, unfolded if_P [OF sample_tokens_hit]]
  show ?thesis
    by (intro conjI sample_tokens sample_tokens_hit cached)
qed

text \<open>
  C10. In any state a run of the server reaches, an invocation of tokens-one-chain
  without the chain argument never returns a token list: its \<^verbatim>\<open>try\<close> block throws
  (the remote call fails, or the list read under the property name
  \<^verbatim>\<open>undefined\<close> is missing and \<^verbatim>\<open>slice\<close> throws), the handler returns the
  failure text with the message of what was thrown, the cache is left as it was, and it
  holds nothing under \<^verbatim>\<open>tokens-all\<close>.
\<close>

theorem tokens_without_chain_fails:
  assumes "w = run sdk' history startup"
  shows "(\<exists>e. fst (try_block sdk now (TokensOneChain None) w) = Inl e
            \<and> fst (handler sdk now (TokensOneChain None) w)
                = Inr (Content (Some (''Failed to get tokens: '' @ error_message e))))
    \<and> cache (snd (handler sdk now (TokensOneChain None) w)) = cache w
    \<and> cache (snd (handler sdk now (TokensOneChain None) w)) ''tokens-all'' = None"
proof -
  have "token_lists_bounded (cache w)"
    unfolding assms by (rule run_bounded)
  then have none: "cache w ''tokens-all'' = None"
    by (simp add: token_lists_bounded_def)
  then have stale: "\<not> fresh now (cache_key (TokensOfChain None)) (cache w)"
    by (simp add: fresh_def)
  have thrown: "\<exists>e. fst (try_block sdk now (TokensOneChain None) w) = Inl e"
    unfolding tokens_one_chain_miss [OF stale]
    by (simp add: tokens_of_undefined split: sum.splits)
  have same: "cache (snd (try_block sdk now (TokensOneChain None) w)) = cache w"
    using none
    by (simp add: bind_io_def get_io_def cache_get_def unless_cached_def remote_def throw_def
        tokens_of_undefined split: sum.splits)
  from thrown obtain e where e: "fst (try_block sdk now (TokensOneChain None) w) = Inl e"
    by blast
  then obtain w' where "try_block sdk now (TokensOneChain None) w = (Inl e, w')"
    by (metis prod.collapse)
  then have "fst (handler sdk now (TokensOneChain None) w)
                = Inr (Content (Some (''Failed to get tokens: '' @ error_message e)))"
    unfolding handler_result by (simp del: try_block.simps)
  with e same none show ?thesis
    unfolding handler_world by (simp del: try_block.simps)
qed

theorem tokens_without_chain_fails_witness:
  "fst (handler sample_sdk 5 (TokensOneChain None)
          (run sample_sdk [(0, TokensOneChain (Some ''1'')), (1, Chains)] startup))
     = Inr (Content (Some ''Failed to get tokens: Cannot read properties of undefined (reading 'slice')''))
   \<and> cache (snd (handler sample_sdk 5 (TokensOneChain None)
          (run sample_sdk [(0, TokensOneChain (Some ''1'')), (1, Chains)] startup))) ''tokens-all'' = None"
proof -
  let ?w = "run sample_sdk [(0, TokensOneChain (Some ''1'')), (1, Chains)] startup"
  obtain e where e: "fst (try_block sample_sdk 5 (TokensOneChain None) ?w) = Inl e"
      "fst (handler sample_sdk 5 (TokensOneChain None) ?w)
         = Inr (Content (Some (''Failed to get tokens: '' @ error_message e)))"
    and none: "cache (snd (handler sample_sdk 5 (TokensOneChain None) ?w)) ''tokens-all'' = None"
      "cache (snd (handler sample_sdk 5 (TokensOneChain None) ?w)) = cache ?w"
    using tokens_without_chain_fails [of ?w sample_sdk "[(0, TokensOneChain (Some ''1'')), (1, Chains)]"
        sample_sdk 5]
    by blast
  have stale: "\<not> fresh 5 (cache_key (TokensOfChain None)) (cache ?w)"
    using none by (simp add: fresh_def)
  have "fst (try_block sample_sdk 5 (TokensOneChain None) ?w)
          = Inl (TypeError ''Cannot read properties of undefined (reading 'slice')'')"
    unfolding tokens_one_chain_miss [OF stale]
    by (simp add: sample_sdk_def tokens_of_undefined objectPrototype_def)
  with e have "error_message e = ''Cannot read properties of undefined (reading 'slice')''"
    by simp
  with e(2) none(1) show ?thesis by simp
qed

subsection \<open>No handler throws\<close>















end
